theory Spec2Isabelle
  imports Complex_Main
begin

unbundle bit_operations_syntax

section \<open>Flight telemetry simulator: the senders of revisions 6 and 7\<close>

text \<open>
  The theory embeds \<^verbatim>\<open>src/senderv6.py\<close> and \<^verbatim>\<open>src/senderv7.py\<close>.
  Python integers are \<^typ>\<open>int\<close>. Python floats are idealised as \<^typ>\<open>real\<close>: the
  functions of the \<^verbatim>\<open>math\<close> module are the real functions they approximate, and
  no rounding is modelled. Where a result depends on a comparison of a rounded value with
  \<^verbatim>\<open>0\<close> or \<^verbatim>\<open>1\<close>, the double-precision code can take another branch than
  the idealisation; the two places where it does are noted at the definitions. Exceptions
  are values of \<^typ>\<open>'a + 'b\<close>, with \<open>Inl\<close> the exception. The wall clock read by the
  code is an explicit argument.
\<close>

subsection \<open>Exceptions and the numeric primitives of Python\<close>

datatype py_error =
  StructError | ValueError | ZeroDivisionError | UnicodeEncodeError | NameError | RuntimeError

text \<open>\<^verbatim>\<open>int(x)\<close> on a float truncates towards zero.\<close>

definition py_int :: "real \<Rightarrow> int" where
  "py_int x = (if 0 \<le> x then \<lfloor>x\<rfloor> else \<lceil>x\<rceil>)"

text \<open>\<^verbatim>\<open>a % b\<close> on floats, for a positive modulus: the result has the sign of \<open>b\<close>.\<close>

definition py_fmod :: "real \<Rightarrow> real \<Rightarrow> real" where
  "py_fmod a b = a - b * of_int \<lfloor>a / b\<rfloor>"

definition radians :: "real \<Rightarrow> real" where
  "radians d = d * pi / 180"

definition degrees :: "real \<Rightarrow> real" where
  "degrees r = r * 180 / pi"

text \<open>\<^verbatim>\<open>math.atan2(y, x)\<close>, with \<^verbatim>\<open>atan2(0, 0) = 0\<close>.\<close>

definition atan2 :: "real \<Rightarrow> real \<Rightarrow> real" where
  "atan2 y x =
     (if 0 < x then arctan (y / x)
      else if x < 0 \<and> 0 \<le> y then arctan (y / x) + pi
      else if x < 0 then arctan (y / x) - pi
      else if 0 < y then pi / 2
      else if y < 0 then - (pi / 2)
      else 0)"

text \<open>\<^verbatim>\<open>math.sqrt\<close> and \<^verbatim>\<open>math.acos\<close> raise ValueError outside their domain.\<close>

definition math_sqrt :: "real \<Rightarrow> py_error + real" where
  "math_sqrt x = (if x < 0 then Inl ValueError else Inr (sqrt x))"

definition math_acos :: "real \<Rightarrow> py_error + real" where
  "math_acos x = (if x < - 1 \<or> 1 < x then Inl ValueError else Inr (arccos x))"

subsection \<open>Configuration\<close>

definition INVALDATA :: int where "INVALDATA = 0x7FFFFFFF"
definition MAGIC_ID :: int where "MAGIC_ID = 0xFDFD"
definition DATA_PACKET_TYPE :: int where "DATA_PACKET_TYPE = 0x10"
definition LAT_LON_SCALE_FACTOR :: real where "LAT_LON_SCALE_FACTOR = 3600"
definition TOTAL_FLIGHT_SECONDS :: int where "TOTAL_FLIGHT_SECONDS = 600"

text \<open>The dictionary \<^verbatim>\<open>PHASE_TIMINGS\<close>, as its items in insertion order.\<close>

definition PHASE_TIMINGS :: "(int \<times> int) list" where
  "PHASE_TIMINGS = [(30, 2), (60, 3), (180, 4), (480, 5), (540, 6), (600, 7)]"

text \<open>One row of the airport table built by \<^verbatim>\<open>load_airports\<close>.\<close>

record airport =
  icao :: string
  lat :: real
  lon :: real
  geoID :: int

subsection \<open>Strings and \<^verbatim>\<open>struct\<close>\<close>

text \<open>
  Python strings are lists of characters; the model covers the ASCII range, where
  \<^verbatim>\<open>str.upper\<close> maps \<^verbatim>\<open>a-z\<close> to \<^verbatim>\<open>A-Z\<close> and nothing else, and
  \<^verbatim>\<open>str.strip\<close> removes the whitespace characters 9-13, 28-31 and 32 from both ends.
  On characters outside ASCII the model leaves the text unchanged, where Python may strip
  or replace them; airport codes are ASCII. Bytes are natural numbers below 256.
\<close>

definition py_isspace :: "char \<Rightarrow> bool" where
  "py_isspace c =
     (let n = (of_char c :: nat) in (9 \<le> n \<and> n \<le> 13) \<or> (28 \<le> n \<and> n \<le> 32))"

definition py_strip :: "string \<Rightarrow> string" where
  "py_strip s = rev (dropWhile py_isspace (rev (dropWhile py_isspace s)))"

definition upper_char :: "char \<Rightarrow> char" where
  "upper_char c =
     (let n = (of_char c :: nat) in if 97 \<le> n \<and> n \<le> 122 then char_of (n - 32) else c)"

definition py_upper :: "string \<Rightarrow> string" where
  "py_upper s = map upper_char s"

definition py_ljust :: "nat \<Rightarrow> string \<Rightarrow> string" where
  "py_ljust w s = s @ replicate (w - length s) CHR '' ''"

definition is_ascii :: "string \<Rightarrow> bool" where
  "is_ascii s = list_all (\<lambda>c. (of_char c :: nat) < 128) s"

definition encode_ascii :: "string \<Rightarrow> py_error + nat list" where
  "encode_ascii s = (if is_ascii s then Inr (map of_char s) else Inl UnicodeEncodeError)"

text \<open>The value of a byte string read as a big-endian unsigned number.\<close>

definition be_value :: "nat list \<Rightarrow> int" where
  "be_value bs = foldl (\<lambda>a b. a * 256 + int b) 0 bs"

text \<open>The \<open>n\<close> bytes of an integer, most significant first (two's complement).\<close>

definition be_bytes :: "nat \<Rightarrow> int \<Rightarrow> nat list" where
  "be_bytes n v = map (\<lambda>k. nat ((v div 2 ^ (8 * k)) mod 256)) (rev [0..<n])"

text \<open>\<^verbatim>\<open>struct.unpack('>i', b)[0]\<close>, \<^verbatim>\<open>struct.unpack('>I', b)[0]\<close> and
  \<^verbatim>\<open>struct.unpack('<I', b)[0]\<close>: the buffer must hold exactly four bytes.\<close>

definition unpack_be_i :: "nat list \<Rightarrow> py_error + int" where
  "unpack_be_i b =
     (if length b \<noteq> 4 then Inl StructError
      else (let u = be_value b in Inr (if 2 ^ 31 \<le> u then u - 2 ^ 32 else u)))"

definition unpack_be_I :: "nat list \<Rightarrow> py_error + int" where
  "unpack_be_I b = (if length b \<noteq> 4 then Inl StructError else Inr (be_value b))"

definition unpack_le_I :: "nat list \<Rightarrow> py_error + int" where
  "unpack_le_I b = (if length b \<noteq> 4 then Inl StructError else Inr (be_value (rev b)))"

text \<open>
  Format strings. Only the big-endian standard layout (\<^verbatim>\<open>>\<close>, no padding) and the
  codes the senders use are modelled: \<^verbatim>\<open>H\<close>, \<^verbatim>\<open>B\<close>, \<^verbatim>\<open>i\<close>, \<^verbatim>\<open>I\<close> and
  \<^verbatim>\<open>s\<close>, each with an optional decimal count.
\<close>

datatype fcode = FH | FB | Fi | FI | Fs nat

datatype pyval = PyInt int | PyBytes "nat list"

definition code_of :: "char \<Rightarrow> fcode option" where
  "code_of c =
     (if c = CHR ''H'' then Some FH else if c = CHR ''B'' then Some FB
      else if c = CHR ''i'' then Some Fi else if c = CHR ''I'' then Some FI else None)"

definition is_digit :: "char \<Rightarrow> bool" where
  "is_digit c = (48 \<le> (of_char c :: nat) \<and> (of_char c :: nat) \<le> 57)"

fun parse_codes :: "nat option \<Rightarrow> string \<Rightarrow> fcode list option" where
  "parse_codes cnt [] = (case cnt of None \<Rightarrow> Some [] | Some n \<Rightarrow> None)"
| "parse_codes cnt (c # cs) =
     (if is_digit c
      then parse_codes (Some (10 * (case cnt of None \<Rightarrow> 0 | Some n \<Rightarrow> n) + (of_char c - 48))) cs
      else if c = CHR ''s''
      then map_option ((#) (Fs (case cnt of None \<Rightarrow> 1 | Some n \<Rightarrow> n))) (parse_codes None cs)
      else (case code_of c of
              None \<Rightarrow> None
            | Some f \<Rightarrow>
                map_option ((@) (replicate (case cnt of None \<Rightarrow> 1 | Some n \<Rightarrow> n) f))
                  (parse_codes None cs)))"

definition parse_format :: "string \<Rightarrow> fcode list option" where
  "parse_format fmt = (case fmt of [] \<Rightarrow> None | c # cs \<Rightarrow> if c = CHR ''>'' then parse_codes None cs else None)"

fun code_size :: "fcode \<Rightarrow> nat" where
  "code_size FH = 2"
| "code_size FB = 1"
| "code_size Fi = 4"
| "code_size FI = 4"
| "code_size (Fs n) = n"

definition calcsize :: "string \<Rightarrow> py_error + nat" where
  "calcsize fmt =
     (case parse_format fmt of
        None \<Rightarrow> Inl StructError
      | Some cs \<Rightarrow> Inr (sum_list (map code_size cs)))"

text \<open>One field: an integer out of the range of its code is a \<^verbatim>\<open>struct.error\<close>; a
  byte string is cut or padded with zero bytes to the width of its \<^verbatim>\<open>s\<close> field.\<close>

fun pack_one :: "fcode \<Rightarrow> pyval \<Rightarrow> py_error + nat list" where
  "pack_one FH (PyInt v) = (if 0 \<le> v \<and> v < 2 ^ 16 then Inr (be_bytes 2 v) else Inl StructError)"
| "pack_one FB (PyInt v) = (if 0 \<le> v \<and> v < 2 ^ 8 then Inr (be_bytes 1 v) else Inl StructError)"
| "pack_one Fi (PyInt v) =
     (if - (2 ^ 31) \<le> v \<and> v < 2 ^ 31 then Inr (be_bytes 4 v) else Inl StructError)"
| "pack_one FI (PyInt v) = (if 0 \<le> v \<and> v < 2 ^ 32 then Inr (be_bytes 4 v) else Inl StructError)"
| "pack_one (Fs n) (PyBytes b) = Inr (take n b @ replicate (n - length b) 0)"
| "pack_one _ _ = Inl StructError"

fun pack_fields :: "fcode list \<Rightarrow> pyval list \<Rightarrow> py_error + nat list" where
  "pack_fields [] [] = Inr []"
| "pack_fields (c # cs) (a # as) =
     (case pack_one c a of
        Inl e \<Rightarrow> Inl e
      | Inr b \<Rightarrow> (case pack_fields cs as of Inl e \<Rightarrow> Inl e | Inr bs \<Rightarrow> Inr (b @ bs)))"
| "pack_fields _ _ = Inl StructError"

definition struct_pack :: "string \<Rightarrow> pyval list \<Rightarrow> py_error + nat list" where
  "struct_pack fmt args =
     (case parse_format fmt of None \<Rightarrow> Inl StructError | Some cs \<Rightarrow> pack_fields cs args)"

subsection \<open>Airport codes\<close>

text \<open>Revision 6: \<^verbatim>\<open>(code[:4]).ljust(4, ' ')\<close> read as \<^verbatim>\<open>>i\<close>.\<close>

definition encode_airport_v6 :: "string \<Rightarrow> py_error + int" where
  "encode_airport_v6 code =
     (let s = py_ljust 4 (take 4 code)
      in case encode_ascii s of Inl e \<Rightarrow> Inl e | Inr b \<Rightarrow> unpack_be_i b)"

text \<open>Revision 7: \<^verbatim>\<open>code.strip().upper().ljust(4, ' ')[:4]\<close> read as \<^verbatim>\<open><I\<close>.\<close>

definition encode_airport_v7 :: "string \<Rightarrow> py_error + int" where
  "encode_airport_v7 code =
     (let s = take 4 (py_ljust 4 (py_upper (py_strip code)))
      in case encode_ascii s of Inl e \<Rightarrow> Inl e | Inr b \<Rightarrow> unpack_le_I b)"

text \<open>
  Modelled from the spec: the receiver's decoding of an airport-code slot is not part of
  the repository. Following the spec's "padding/byte-order convention", the slot's four
  bytes are taken in the byte order of the revision (\<^verbatim>\<open>>i\<close> for revision 6,
  \<^verbatim>\<open><I\<close> for revision 7) and read as ASCII text.
\<close>

definition decode_airport_v6 :: "int \<Rightarrow> string" where
  "decode_airport_v6 v = map char_of (be_bytes 4 v)"

definition decode_airport_v7 :: "int \<Rightarrow> string" where
  "decode_airport_v7 v = map char_of (rev (be_bytes 4 v))"

subsection \<open>Navigation\<close>

definition compute_heading :: "real \<Rightarrow> real \<Rightarrow> real \<Rightarrow> real \<Rightarrow> int" where
  "compute_heading lat1 lon1 lat2 lon2 =
     (let lat1_rad = radians lat1;
          lat2_rad = radians lat2;
          dlon_rad = radians (lon2 - lon1);
          x = sin dlon_rad * cos lat2_rad;
          y = cos lat1_rad * sin lat2_rad - sin lat1_rad * cos lat2_rad * cos dlon_rad
      in py_int (py_fmod (degrees (atan2 x y) + 360) 360))"

text \<open>
  The interpolation along the great circle, in exact arithmetic. Two branches differ in
  double precision. For identical endpoints the dot product is exactly 1 here, so
  \<^verbatim>\<open>omega == 0\<close> holds and the guard returns the first point; the rounded dot product
  can be \<^verbatim>\<open>0.9999999999999998\<close> (it is for latitude 40.6413, longitude -73.7781),
  where the code skips the guard and divides by \<^verbatim>\<open>sin(omega)\<close>. For exactly antipodal
  endpoints \<^verbatim>\<open>sin(omega)\<close> is 0 here, a \<^verbatim>\<open>ZeroDivisionError\<close>; the rounded
  \<^verbatim>\<open>sin(math.pi)\<close> is not 0 and the code returns a point.
\<close>

definition interpolate_great_circle ::
  "real \<Rightarrow> real \<Rightarrow> real \<Rightarrow> real \<Rightarrow> real \<Rightarrow> py_error + (real \<times> real)" where
  "interpolate_great_circle lat1 lon1 lat2 lon2 fraction =
     (let lat1_rad = radians lat1; lon1_rad = radians lon1;
          lat2_rad = radians lat2; lon2_rad = radians lon2;
          x1 = cos lat1_rad * cos lon1_rad; y1 = cos lat1_rad * sin lon1_rad; z1 = sin lat1_rad;
          x2 = cos lat2_rad * cos lon2_rad; y2 = cos lat2_rad * sin lon2_rad; z2 = sin lat2_rad;
          dot = max (min (x1 * x2 + y1 * y2 + z1 * z2) 1) (- 1)
      in case math_acos dot of
           Inl e \<Rightarrow> Inl e
         | Inr omega \<Rightarrow>
             if omega = 0 then Inr (lat1, lon1)
             else if sin omega = 0 then Inl ZeroDivisionError
             else
               (let t1 = sin ((1 - fraction) * omega) / sin omega;
                    t2 = sin (fraction * omega) / sin omega;
                    x = t1 * x1 + t2 * x2; y = t1 * y1 + t2 * y2; z = t1 * z1 + t2 * z2
                in case math_sqrt (x * x + y * y) of
                     Inl e \<Rightarrow> Inl e
                   | Inr r \<Rightarrow> Inr (degrees (atan2 z r), degrees (atan2 y x))))"

text \<open>
  The haversine distance, in exact arithmetic, where \<^verbatim>\<open>a\<close> lies between 0 and 1
  for latitudes within 90 degrees of the equator and neither square root raises. In double
  precision \<^verbatim>\<open>a\<close> can round to \<^verbatim>\<open>1.0000000000000002\<close> for nearly antipodal
  points, where \<^verbatim>\<open>math.sqrt(1 - a)\<close> raises \<^verbatim>\<open>ValueError\<close>.
\<close>

definition haversine_distance :: "real \<Rightarrow> real \<Rightarrow> real \<Rightarrow> real \<Rightarrow> py_error + real" where
  "haversine_distance lat1 lon1 lat2 lon2 =
     (let R = 6371;
          dlat = radians (lat2 - lat1);
          dlon = radians (lon2 - lon1);
          a = sin (dlat / 2) * sin (dlat / 2)
              + cos (radians lat1) * cos (radians lat2) * sin (dlon / 2) * sin (dlon / 2)
      in case math_sqrt a of
           Inl e \<Rightarrow> Inl e
         | Inr sa \<Rightarrow>
             (case math_sqrt (1 - a) of
                Inl e \<Rightarrow> Inl e
              | Inr sb \<Rightarrow> Inr (R * (2 * atan2 sa sb) * 0.539957)))"

subsection \<open>The simulation loop of \<^verbatim>\<open>main\<close>\<close>

text \<open>
  The loop \<^verbatim>\<open>for t, phase in sorted(PHASE_TIMINGS.items())\<close>. It returns the updated
  \<^verbatim>\<open>current_phase\<close> and the loop variable \<^verbatim>\<open>phase\<close>, which stays bound after the
  loop (\<open>None\<close>: never bound).
\<close>

definition phase_loop :: "real \<Rightarrow> int \<Rightarrow> int \<times> int option" where
  "phase_loop elapsed current_phase =
     fold (\<lambda>(t, phase) (cur, _). (if of_int t \<le> elapsed then phase else cur, Some phase))
          (sort_key fst PHASE_TIMINGS) (current_phase, None)"

text \<open>The arguments one iteration hands to \<^verbatim>\<open>send_data_packet\<close>.\<close>

record tick_out =
  out_lat :: real
  out_lon :: real
  out_heading :: int
  out_phase :: int
  out_elapsed :: real

text \<open>
  One iteration of the loop of revision 6, up to the call of \<^verbatim>\<open>send_data_packet\<close>.
  The state carried between iterations is \<^verbatim>\<open>current_phase\<close>.
\<close>

definition tick_v6 :: "airport \<Rightarrow> airport \<Rightarrow> int \<Rightarrow> real \<Rightarrow> py_error + (int \<times> tick_out)" where
  "tick_v6 DEP_APT DST_APT current_phase elapsed =
     (let (current_phase1, phase) = phase_loop elapsed current_phase;
          fraction = min (elapsed / of_int TOTAL_FLIGHT_SECONDS) 1
      in case interpolate_great_circle (lat DEP_APT) (lon DEP_APT) (lat DST_APT) (lon DST_APT)
                fraction of
           Inl e \<Rightarrow> Inl e
         | Inr (current_lat, current_lon) \<Rightarrow>
             (let heading = compute_heading current_lat current_lon (lat DST_APT) (lon DST_APT);
                  (current_phase2, current_lat2, current_lon2) =
                    (if 1 \<le> fraction then (8, lat DST_APT, lon DST_APT)
                     else (current_phase1, current_lat, current_lon))
              in Inr (current_phase2,
                      \<lparr>out_lat = current_lat2, out_lon = current_lon2, out_heading = heading,
                       out_phase = current_phase2, out_elapsed = elapsed\<rparr>)))"

text \<open>
  Revision 7 adds the global \<^verbatim>\<open>oldheading\<close>. The test \<^verbatim>\<open>if phase != 8\<close> reads the
  loop variable \<^verbatim>\<open>phase\<close> of the threshold scan, not \<^verbatim>\<open>current_phase\<close>.
\<close>

record sim_state =
  current_phase :: int
  oldheading :: int

definition tick_v7 ::
  "airport \<Rightarrow> airport \<Rightarrow> sim_state \<Rightarrow> real \<Rightarrow> py_error + (sim_state \<times> tick_out)" where
  "tick_v7 DEP_APT DST_APT st elapsed =
     (let (current_phase1, phase) = phase_loop elapsed (current_phase st);
          fraction = min (elapsed / of_int TOTAL_FLIGHT_SECONDS) 1
      in case interpolate_great_circle (lat DEP_APT) (lon DEP_APT) (lat DST_APT) (lon DST_APT)
                fraction of
           Inl e \<Rightarrow> Inl e
         | Inr (current_lat, current_lon) \<Rightarrow>
             (case phase of
                None \<Rightarrow> Inl NameError
              | Some ph \<Rightarrow>
                  (let (heading, oldheading1) =
                         (if ph \<noteq> 8
                          then (let h = compute_heading current_lat current_lon
                                          (lat DST_APT) (lon DST_APT)
                                in (h, h))
                          else (oldheading st, oldheading st));
                       (current_phase2, current_lat2, current_lon2) =
                         (if 1 \<le> fraction then (8, lat DST_APT, lon DST_APT)
                          else (current_phase1, current_lat, current_lon))
                   in Inr (\<lparr>current_phase = current_phase2, oldheading = oldheading1\<rparr>,
                           \<lparr>out_lat = current_lat2, out_lon = current_lon2,
                            out_heading = heading, out_phase = current_phase2,
                            out_elapsed = elapsed\<rparr>))))"

text \<open>The state in which \<^verbatim>\<open>main\<close> enters the loop.\<close>

definition init_v6 :: int where
  "init_v6 = 1"

definition init_v7 :: sim_state where
  "init_v7 = \<lparr>current_phase = 1, oldheading = 0\<rparr>"

subsection \<open>The packet\<close>

text \<open>
  The clock readings of one call. Revision 6 calls \<^verbatim>\<open>time.time()\<close>, then
  \<^verbatim>\<open>time.gmtime()\<close>, then \<^verbatim>\<open>time.time()\<close> again. Revision 7 reads
  \<^verbatim>\<open>datetime.now(timezone.utc)\<close> once and the module-level \<^verbatim>\<open>start_time\<close>.
\<close>

record clock_v6 =
  time_first :: real
  tm_year :: int
  tm_mon :: int
  tm_mday :: int
  time_second :: real

record datetime =
  dt_year :: int
  dt_month :: int
  dt_day :: int
  dt_hour :: int
  dt_minute :: int
  dt_second :: int

definition DATA_FULL_FORMAT_v6 :: string where
  "DATA_FULL_FORMAT_v6 = ''>HH'' @ replicate 42 CHR ''i'' @ ''5s''"

definition EXPECTED_PACKET_SIZE_v6 :: "py_error + nat" where
  "EXPECTED_PACKET_SIZE_v6 = calcsize DATA_FULL_FORMAT_v6"

definition DATA_FULL_FORMAT_v7 :: string where
  "DATA_FULL_FORMAT_v7 = ''>HH'' @ replicate 20 CHR ''i'' @ ''I'' @ replicate 21 CHR ''i''"

definition EXPECTED_PACKET_SIZE_v7 :: "py_error + nat" where
  "EXPECTED_PACKET_SIZE_v7 = calcsize DATA_FULL_FORMAT_v7"

text \<open>The wind component, the same lines in both revisions.\<close>

definition tailwind :: "int \<Rightarrow> int" where
  "tailwind heading =
     (let head_wind = 39 :: int;
          wind_direction = heading + 10;
          wind_angle_diff = heading - wind_direction
      in py_int (of_int head_wind * cos (radians (of_int wind_angle_diff))))"

text \<open>The value \<^verbatim>\<open>estimated_arrival_time\<close> of each revision.\<close>

definition estimated_arrival_time_v6 :: "clock_v6 \<Rightarrow> real \<Rightarrow> int" where
  "estimated_arrival_time_v6 clk elapsed =
     (let remaining_time = max (of_int TOTAL_FLIGHT_SECONDS - elapsed) 0;
          epoch_time = py_int (time_first clk)
      in epoch_time + py_int remaining_time)"

definition estimated_arrival_time_v7 :: "datetime \<Rightarrow> real" where
  "estimated_arrival_time_v7 start_time =
     (let current_minutes_today = of_int (dt_hour start_time * 60) + of_int (dt_minute start_time) * 1.2
      in py_fmod (current_minutes_today + of_int TOTAL_FLIGHT_SECONDS / 60) 1440)"

text \<open>The list \<^verbatim>\<open>all_42_integers\<close> of revision 6, with everything computed before it.\<close>

definition all_42_integers_v6 ::
  "clock_v6 \<Rightarrow> real \<Rightarrow> real \<Rightarrow> int \<Rightarrow> int \<Rightarrow> real \<Rightarrow> string \<Rightarrow> string \<Rightarrow> airport \<Rightarrow> airport
     \<Rightarrow> py_error + int list" where
  "all_42_integers_v6 clk cur_lat cur_lon heading phase elapsed DEP DST DEP_APT DST_APT =
     (let fraction = min (elapsed / of_int TOTAL_FLIGHT_SECONDS) 1;
          remaining_time = max (of_int TOTAL_FLIGHT_SECONDS - elapsed) 0;
          estimated_arrival_time = estimated_arrival_time_v6 clk elapsed;
          altitude = (if fraction < 1 then 35000 * sin (pi * fraction) else 0);
          altitude_scaled = py_int (altitude * 100);
          vertical_speed_rate = (if fraction < 1 then 3000 * cos (pi * fraction) else 0);
          vertical_speed = py_int vertical_speed_rate;
          vertical_speed_scaled = vertical_speed * 100;
          true_airspeed = 450 * (1 - \<bar>cos (pi * fraction)\<bar> * 0.2);
          temperature = 288.15 - 0.0065 * altitude
      in case math_sqrt temperature of
           Inl e \<Rightarrow> Inl e
         | Inr sq \<Rightarrow>
      (let speed_of_sound = 20.05 * sq * 1.944;
           mach = (if speed_of_sound \<noteq> 0 then py_int (true_airspeed / speed_of_sound * 10000)
                   else 0)
       in case haversine_distance (lat DEP_APT) (lon DEP_APT) (lat DST_APT) (lon DST_APT) of
            Inl e \<Rightarrow> Inl e
          | Inr total_dist_nm \<Rightarrow>
      (let dist_traveled = total_dist_nm * fraction;
           distance_to_destination = py_int (total_dist_nm - dist_traveled);
           ground_speed = py_int (true_airspeed * 0.95);
           head_wind = 39;
           time_since_departure = py_int elapsed;
           FPA = 14;
           (pitch, roll) =
             (if phase = 2 then (py_int (5 + 5 * min elapsed 30 / 30), 0)
              else if phase = 3 then (5, py_int (5 * sin (elapsed / 10)))
              else if phase = 4 then (0, 0)
              else if phase = 5 then (- 2, py_int (5 * sin (elapsed / 10)))
              else if phase = 6 then (2, 0)
              else if phase = 7 then (5, 0)
              else (0, 0));
           date_enc = push_bit 16 (tm_year clk) OR push_bit 8 (tm_mon clk) OR tm_mday clk;
           time_enc = py_int (time_second clk)
       in case encode_airport_v6 DEP of Inl e \<Rightarrow> Inl e | Inr dep_iata \<Rightarrow>
          case encode_airport_v6 (icao DEP_APT) of Inl e \<Rightarrow> Inl e | Inr dep_icao \<Rightarrow>
          case encode_airport_v6 DST of Inl e \<Rightarrow> Inl e | Inr dst_iata \<Rightarrow>
          case encode_airport_v6 (icao DST_APT) of Inl e \<Rightarrow> Inl e | Inr dst_icao \<Rightarrow>
          Inr [1,
               py_int (cur_lat * LAT_LON_SCALE_FACTOR),
               py_int (cur_lon * LAT_LON_SCALE_FACTOR),
               ground_speed,
               py_int true_airspeed,
               FPA,
               head_wind,
               distance_to_destination,
               4,
               altitude_scaled,
               py_int temperature,
               py_int remaining_time,
               time_since_departure,
               heading,
               vertical_speed_scaled,
               tailwind heading,
               estimated_arrival_time,
               mach,
               py_int (dist_traveled * 100),
               time_enc,
               date_enc,
               py_int (lat DEP_APT * LAT_LON_SCALE_FACTOR),
               py_int (lon DEP_APT * LAT_LON_SCALE_FACTOR),
               dep_iata,
               dep_icao,
               geoID DEP_APT,
               py_int (lat DST_APT * LAT_LON_SCALE_FACTOR),
               py_int (lon DST_APT * LAT_LON_SCALE_FACTOR),
               dst_iata,
               dst_icao,
               geoID DST_APT,
               phase,
               1, 0, 0, 0, 4, 2, 2,
               vertical_speed,
               pitch,
               roll])))"

text \<open>Revision 6: the length check of the list, the packing, the size check. The packet
  handed to \<^verbatim>\<open>sock.sendto\<close> is the result.\<close>

definition send_data_packet_v6 ::
  "clock_v6 \<Rightarrow> real \<Rightarrow> real \<Rightarrow> int \<Rightarrow> int \<Rightarrow> real \<Rightarrow> string \<Rightarrow> string \<Rightarrow> airport \<Rightarrow> airport
     \<Rightarrow> py_error + nat list" where
  "send_data_packet_v6 clk cur_lat cur_lon heading phase elapsed DEP DST DEP_APT DST_APT =
     (case all_42_integers_v6 clk cur_lat cur_lon heading phase elapsed DEP DST DEP_APT DST_APT of
        Inl e \<Rightarrow> Inl e
      | Inr all_42_integers \<Rightarrow>
          if length all_42_integers \<noteq> 42 then Inl ValueError
          else
            (let flight_str = map of_char ''RC901'';
                 pack_args = [PyInt MAGIC_ID, PyInt DATA_PACKET_TYPE] @ map PyInt all_42_integers
                             @ [PyBytes flight_str]
             in case struct_pack DATA_FULL_FORMAT_v6 pack_args of
                  Inl e \<Rightarrow> Inl e
                | Inr packet \<Rightarrow>
                    (case EXPECTED_PACKET_SIZE_v6 of
                       Inl e \<Rightarrow> Inl e
                     | Inr n \<Rightarrow> if length packet \<noteq> n then Inl RuntimeError else Inr packet)))"

text \<open>The list \<^verbatim>\<open>all_42_integers\<close> of revision 7.\<close>

definition all_42_integers_v7 ::
  "datetime \<Rightarrow> datetime \<Rightarrow> real \<Rightarrow> real \<Rightarrow> int \<Rightarrow> int \<Rightarrow> real \<Rightarrow> string \<Rightarrow> string \<Rightarrow> airport
     \<Rightarrow> airport \<Rightarrow> py_error + int list" where
  "all_42_integers_v7 now start_time cur_lat cur_lon heading phase elapsed DEP DST DEP_APT DST_APT =
     (let fraction = min (elapsed / of_int TOTAL_FLIGHT_SECONDS) 1;
          remaining_time = max (of_int TOTAL_FLIGHT_SECONDS - elapsed) 0 / 60;
          altitude = (if fraction < 1 then 35000 * sin (pi * fraction) else 0);
          altitude_scaled = py_int (altitude * 100);
          vertical_speed_rate = (if fraction < 1 then 3000 * cos (pi * fraction) else 0);
          vertical_speed = py_int vertical_speed_rate;
          true_airspeed = 450 * (1 - \<bar>cos (pi * fraction)\<bar> * 0.2);
          temperature = 5 :: int
      in case math_sqrt (of_int temperature) of
           Inl e \<Rightarrow> Inl e
         | Inr sq \<Rightarrow>
      (let speed_of_sound = 20.05 * sq * 1.944
       in if speed_of_sound = 0 then Inl ZeroDivisionError
          else
      (let mach = py_int (true_airspeed / speed_of_sound * 1000)
       in case haversine_distance (lat DEP_APT) (lon DEP_APT) (lat DST_APT) (lon DST_APT) of
            Inl e \<Rightarrow> Inl e
          | Inr total_dist_nm \<Rightarrow>
      (let dist_traveled = total_dist_nm * fraction;
           distance_to_destination = py_int (total_dist_nm - dist_traveled);
           ground_speed = py_int (true_airspeed * 0.95);
           head_wind = 39;
           time_since_departure = py_int (elapsed / 60);
           FPA = 14;
           acars_phase_id = 1;
           miqat_phase = 1;
           profile_mode = 1;
           (pitch, roll) =
             (if phase = 2 then (py_int (5 + 5 * min elapsed 30 / 30), 0)
              else if phase = 3 then (5, 0)
              else if phase = 4 then (0, 0)
              else if phase = 5 then (- 2, 0)
              else if phase = 6 then (2, 0)
              else if phase = 7 then (5, 0)
              else (0, 0))
       in case struct_pack ''>HBB'' [PyInt (dt_year now), PyInt (dt_month now), PyInt (dt_day now)] of
            Inl e \<Rightarrow> Inl e
          | Inr date_packed \<Rightarrow>
          case unpack_be_I date_packed of
            Inl e \<Rightarrow> Inl e
          | Inr date_enc \<Rightarrow>
      (let seconds_today = dt_hour now * 3600 + dt_minute now * 60 + dt_second now;
           time_enc = seconds_today mod 86400;
           estimated_arrival_time = estimated_arrival_time_v7 start_time
       in case encode_airport_v7 DEP of Inl e \<Rightarrow> Inl e | Inr dep_iata \<Rightarrow>
          case encode_airport_v7 (icao DEP_APT) of Inl e \<Rightarrow> Inl e | Inr dep_icao \<Rightarrow>
          case encode_airport_v7 DST of Inl e \<Rightarrow> Inl e | Inr dst_iata \<Rightarrow>
          case encode_airport_v7 (icao DST_APT) of Inl e \<Rightarrow> Inl e | Inr dst_icao \<Rightarrow>
          Inr [1,
               py_int (cur_lat * LAT_LON_SCALE_FACTOR),
               py_int (cur_lon * LAT_LON_SCALE_FACTOR),
               ground_speed,
               py_int true_airspeed,
               FPA,
               head_wind,
               distance_to_destination,
               py_int dist_traveled,
               py_int altitude,
               temperature,
               py_int remaining_time,
               time_since_departure,
               heading,
               heading,
               tailwind heading,
               py_int estimated_arrival_time,
               mach,
               py_int (dist_traveled * 100),
               time_enc,
               date_enc,
               py_int (lat DEP_APT * LAT_LON_SCALE_FACTOR),
               py_int (lon DEP_APT * LAT_LON_SCALE_FACTOR),
               dep_iata,
               dep_icao,
               geoID DEP_APT,
               py_int (lat DST_APT * LAT_LON_SCALE_FACTOR),
               py_int (lon DST_APT * LAT_LON_SCALE_FACTOR),
               dst_iata,
               dst_icao,
               geoID DST_APT,
               phase,
               acars_phase_id,
               miqat_phase,
               0,
               0,
               1,
               profile_mode,
               altitude_scaled,
               vertical_speed,
               pitch,
               roll])))))"

text \<open>Revision 7: the packing and the size check.\<close>

definition send_data_packet_v7 ::
  "datetime \<Rightarrow> datetime \<Rightarrow> real \<Rightarrow> real \<Rightarrow> int \<Rightarrow> int \<Rightarrow> real \<Rightarrow> string \<Rightarrow> string \<Rightarrow> airport
     \<Rightarrow> airport \<Rightarrow> py_error + nat list" where
  "send_data_packet_v7 now start_time cur_lat cur_lon heading phase elapsed DEP DST DEP_APT DST_APT =
     (case all_42_integers_v7 now start_time cur_lat cur_lon heading phase elapsed DEP DST
             DEP_APT DST_APT of
        Inl e \<Rightarrow> Inl e
      | Inr all_42_integers \<Rightarrow>
          (let pack_args = [PyInt MAGIC_ID, PyInt DATA_PACKET_TYPE] @ map PyInt all_42_integers
           in case struct_pack DATA_FULL_FORMAT_v7 pack_args of
                Inl e \<Rightarrow> Inl e
              | Inr packet \<Rightarrow>
                  (case EXPECTED_PACKET_SIZE_v7 of
                     Inl e \<Rightarrow> Inl e
                   | Inr n \<Rightarrow> if length packet \<noteq> n then Inl RuntimeError else Inr packet)))"

subsection \<open>The loop with the sender\<close>

text \<open>
  The loop of \<^verbatim>\<open>main\<close> run over the clock readings of successive iterations: the
  elapsed time, and the wall clock the sender reads. Each iteration computes the arguments
  and calls the sender; the run collects the arguments and the packet of every iteration
  that sent one. Any exception ends the run: \<^verbatim>\<open>main\<close> exits on \<^verbatim>\<open>struct.error\<close>,
  \<^verbatim>\<open>RuntimeError\<close> and \<^verbatim>\<open>ValueError\<close>, and does not catch the others.
\<close>

fun run_v6 ::
  "string \<Rightarrow> string \<Rightarrow> airport \<Rightarrow> airport \<Rightarrow> int \<Rightarrow> (real \<times> clock_v6) list
     \<Rightarrow> (tick_out \<times> nat list) list" where
  "run_v6 DEP DST DEP_APT DST_APT cp [] = []"
| "run_v6 DEP DST DEP_APT DST_APT cp ((elapsed, clk) # rest) =
     (case tick_v6 DEP_APT DST_APT cp elapsed of
        Inl err \<Rightarrow> []
      | Inr (cp', out) \<Rightarrow>
          (case send_data_packet_v6 clk (out_lat out) (out_lon out) (out_heading out)
                  (out_phase out) (out_elapsed out) DEP DST DEP_APT DST_APT of
             Inl err \<Rightarrow> []
           | Inr packet \<Rightarrow> (out, packet) # run_v6 DEP DST DEP_APT DST_APT cp' rest))"

fun run_v7 ::
  "datetime \<Rightarrow> string \<Rightarrow> string \<Rightarrow> airport \<Rightarrow> airport \<Rightarrow> sim_state \<Rightarrow> (real \<times> datetime) list
     \<Rightarrow> (tick_out \<times> nat list) list" where
  "run_v7 start_time DEP DST DEP_APT DST_APT st [] = []"
| "run_v7 start_time DEP DST DEP_APT DST_APT st ((elapsed, now) # rest) =
     (case tick_v7 DEP_APT DST_APT st elapsed of
        Inl err \<Rightarrow> []
      | Inr (st', out) \<Rightarrow>
          (case send_data_packet_v7 now start_time (out_lat out) (out_lon out) (out_heading out)
                  (out_phase out) (out_elapsed out) DEP DST DEP_APT DST_APT of
             Inl err \<Rightarrow> []
           | Inr packet \<Rightarrow> (out, packet) # run_v7 start_time DEP DST DEP_APT DST_APT st' rest))"

subsection \<open>Auxiliary definitions for the proofs\<close>

text \<open>The phase one iteration transmits, as a function of the elapsed time and of the
  \<^verbatim>\<open>current_phase\<close> left by the iteration before: the threshold scan, then the forced
  terminal phase once \<^verbatim>\<open>fraction >= 1.0\<close>.\<close>

definition phase_rule :: "real \<Rightarrow> int \<Rightarrow> int" where
  "phase_rule e cp = (if 600 \<le> e then 8 else fst (phase_loop e cp))"

fun phase_run :: "int \<Rightarrow> real list \<Rightarrow> int list" where
  "phase_run cp [] = []"
| "phase_run cp (e # es) = phase_rule e cp # phase_run (phase_rule e cp) es"

text \<open>A route along the equator, a quarter of the way round, on which the navigation
  functions evaluate in closed form.\<close>

definition EQ0 :: airport where
  "EQ0 = \<lparr>icao = ''EQAA'', lat = 0, lon = 0, geoID = 1\<rparr>"

definition EQ90 :: airport where
  "EQ90 = \<lparr>icao = ''EQBB'', lat = 0, lon = 90, geoID = 2\<rparr>"

text \<open>The range of the format code \<^verbatim>\<open>i\<close>, and the arguments a format code accepts.\<close>

definition int32 :: "int \<Rightarrow> bool" where
  "int32 v = (- (2 ^ 31) \<le> v \<and> v < 2 ^ 31)"

fun fits :: "fcode \<Rightarrow> pyval \<Rightarrow> bool" where
  "fits FH (PyInt v) = (0 \<le> v \<and> v < 2 ^ 16)"
| "fits FB (PyInt v) = (0 \<le> v \<and> v < 2 ^ 8)"
| "fits Fi (PyInt v) = int32 v"
| "fits FI (PyInt v) = (0 \<le> v \<and> v < 2 ^ 32)"
| "fits (Fs n) (PyBytes b) = True"
| "fits _ _ = False"

text \<open>
  Well-formed inputs of the sender: geographic coordinates in range, ASCII airport codes,
  identifiers, heading and phase that fit a signed 32-bit slot, an elapsed time that is not
  negative and below \<open>2\<^sup>3\<^sup>1\<close> seconds, and clock readings of a calendar date
  (revision 6: before the year 2038 of the epoch clock).
\<close>

definition airport_ok :: "airport \<Rightarrow> bool" where
  "airport_ok a =
     (is_ascii (icao a) \<and> \<bar>lat a\<bar> \<le> 90 \<and> \<bar>lon a\<bar> \<le> 180 \<and> int32 (geoID a))"

definition telemetry_ok ::
  "real \<Rightarrow> real \<Rightarrow> int \<Rightarrow> int \<Rightarrow> real \<Rightarrow> string \<Rightarrow> string \<Rightarrow> airport \<Rightarrow> airport \<Rightarrow> bool" where
  "telemetry_ok cur_lat cur_lon heading phase elapsed DEP DST DEP_APT DST_APT =
     (\<bar>cur_lat\<bar> \<le> 90 \<and> \<bar>cur_lon\<bar> \<le> 180 \<and> int32 heading \<and> int32 phase \<and>
      0 \<le> elapsed \<and> elapsed < 2 ^ 31 \<and> is_ascii DEP \<and> is_ascii DST \<and>
      airport_ok DEP_APT \<and> airport_ok DST_APT)"

definition clock_v6_ok :: "clock_v6 \<Rightarrow> bool" where
  "clock_v6_ok clk =
     (0 \<le> time_first clk \<and> time_first clk < 2 ^ 31 - 601 \<and>
      0 \<le> time_second clk \<and> time_second clk < 2 ^ 31 \<and>
      1 \<le> tm_year clk \<and> tm_year clk \<le> 9999 \<and>
      1 \<le> tm_mon clk \<and> tm_mon clk \<le> 12 \<and> 1 \<le> tm_mday clk \<and> tm_mday clk \<le> 31)"

definition datetime_ok :: "datetime \<Rightarrow> bool" where
  "datetime_ok d =
     (1 \<le> dt_year d \<and> dt_year d \<le> 9999 \<and> 1 \<le> dt_month d \<and> dt_month d \<le> 12 \<and>
      1 \<le> dt_day d \<and> dt_day d \<le> 31 \<and> 0 \<le> dt_hour d \<and> dt_hour d \<le> 23 \<and>
      0 \<le> dt_minute d \<and> dt_minute d \<le> 59 \<and> 0 \<le> dt_second d \<and> dt_second d \<le> 59)"

text \<open>The default route, with the coordinates of \<^verbatim>\<open>src/senderv4.py\<close> and no city id.\<close>

definition JFK :: airport where
  "JFK = \<lparr>icao = ''KJFK'', lat = 40.6413, lon = - 73.7781, geoID = INVALDATA\<rparr>"

definition ORD :: airport where
  "ORD = \<lparr>icao = ''KORD'', lat = 41.9742, lon = - 87.9073, geoID = INVALDATA\<rparr>"

text \<open>Clock readings: a start at 10:31:00 and a call 300 seconds later.\<close>

definition START :: datetime where
  "START = \<lparr>dt_year = 2026, dt_month = 11, dt_day = 3, dt_hour = 10, dt_minute = 31,
             dt_second = 0\<rparr>"

definition NOW :: datetime where
  "NOW = \<lparr>dt_year = 2026, dt_month = 11, dt_day = 3, dt_hour = 10, dt_minute = 36,
           dt_second = 0\<rparr>"

definition CLOCK6 :: clock_v6 where
  "CLOCK6 = \<lparr>time_first = 1793702160.25, tm_year = 2026, tm_mon = 11, tm_mday = 3,
              time_second = 1793702160.5\<rparr>"

text \<open>The same call one second later, and a start on the full hour.\<close>

definition NOW2 :: datetime where
  "NOW2 = \<lparr>dt_year = 2026, dt_month = 11, dt_day = 3, dt_hour = 10, dt_minute = 36,
           dt_second = 1\<rparr>"

definition START0 :: datetime where
  "START0 = \<lparr>dt_year = 2026, dt_month = 11, dt_day = 3, dt_hour = 10, dt_minute = 0,
              dt_second = 0\<rparr>"





text \<open>
  The estimated arrival time in the words of the specification: the departure wall-clock
  time in minutes of the day plus the flight duration in minutes, modulo 1440.
\<close>

definition spec_estimated_arrival_time :: "datetime \<Rightarrow> int" where
  "spec_estimated_arrival_time start_time =
     (dt_hour start_time * 60 + dt_minute start_time + TOTAL_FLIGHT_SECONDS div 60) mod 1440"

section \<open>The flight phase state machine\<close>

subsection \<open>The threshold scan in closed form\<close>

lemma phase_loop_eq:
  "phase_loop e cp =
     (if 600 \<le> e then 7 else if 540 \<le> e then 6 else if 480 \<le> e then 5
      else if 180 \<le> e then 4 else if 60 \<le> e then 3 else if 30 \<le> e then 2 else cp, Some 7)"
  by (simp add: phase_loop_def PHASE_TIMINGS_def)

lemma tick_v6_phase:
  "tick_v6 D A cp e = Inr (cp', out) \<Longrightarrow>
     cp' = phase_rule e cp \<and> out_phase out = phase_rule e cp"
  by (auto simp add: tick_v6_def phase_rule_def phase_loop_eq TOTAL_FLIGHT_SECONDS_def Let_def
      split: sum.splits prod.splits if_splits)

lemma tick_v7_phase:
  "tick_v7 D A st e = Inr (st', out) \<Longrightarrow>
     current_phase st' = phase_rule e (current_phase st) \<and>
     out_phase out = phase_rule e (current_phase st)"
  by (auto simp add: tick_v7_def phase_rule_def phase_loop_eq TOTAL_FLIGHT_SECONDS_def Let_def
      split: sum.splits prod.splits if_splits option.splits)

subsection \<open>Monotonicity\<close>

lemma phase_rule_step:
  "e \<le> e' \<Longrightarrow> cp \<le> phase_rule e' cp \<Longrightarrow> phase_rule e cp \<le> phase_rule e' (phase_rule e cp)"
  by (simp add: phase_rule_def phase_loop_eq split: if_splits)

lemma phase_run_sorted:
  "sorted es \<Longrightarrow> \<forall>e \<in> set es. cp \<le> phase_rule e cp \<Longrightarrow>
     sorted (phase_run cp es) \<and> (\<forall>p \<in> set (phase_run cp es). cp \<le> p)"
proof (induction es arbitrary: cp)
  case Nil
  show ?case by simp
next
  case (Cons e es)
  let ?p = "phase_rule e cp"
  from Cons.prems have le: "cp \<le> ?p" by simp
  from Cons.prems have s: "sorted es" and lo: "\<forall>e' \<in> set es. e \<le> e'" by simp_all
  have "\<forall>e' \<in> set es. ?p \<le> phase_rule e' ?p"
  proof
    fix e' assume m: "e' \<in> set es"
    with lo have "e \<le> e'" by blast
    moreover from Cons.prems m have "cp \<le> phase_rule e' cp" by simp
    ultimately show "?p \<le> phase_rule e' ?p" by (rule phase_rule_step)
  qed
  with Cons.IH [OF s] have ih: "sorted (phase_run ?p es)" "\<forall>q \<in> set (phase_run ?p es). ?p \<le> q"
    by blast+
  with le show ?case by auto
qed

lemma phase_rule_init: "1 \<le> phase_rule e 1"
  by (simp add: phase_rule_def phase_loop_eq)

lemma phase_run_init_sorted: "sorted es \<Longrightarrow> sorted (phase_run 1 es)"
  using phase_run_sorted [of es 1] phase_rule_init by blast

lemma phase_rule_not_7: "cp \<noteq> 7 \<Longrightarrow> phase_rule e cp \<noteq> 7"
  by (simp add: phase_rule_def phase_loop_eq)

lemma phase_run_not_7: "cp \<noteq> 7 \<Longrightarrow> 7 \<notin> set (phase_run cp es)"
  by (induction es arbitrary: cp) (simp_all add: phase_rule_not_7)

subsection \<open>A flight along the equator\<close>

lemma interpolate_equator_0: "interpolate_great_circle 0 0 0 90 0 = Inr (0, 0)"
  by (simp add: interpolate_great_circle_def radians_def degrees_def math_acos_def
      math_sqrt_def atan2_def Let_def)

lemma interpolate_equator_half: "interpolate_great_circle 0 0 0 90 (1 / 2) = Inr (0, 45)"
  by (simp add: interpolate_great_circle_def radians_def degrees_def math_acos_def
      math_sqrt_def atan2_def Let_def sin_45 cos_45 arctan_one)

lemma interpolate_equator_1: "interpolate_great_circle 0 0 0 90 1 = Inr (0, 90)"
  by (simp add: interpolate_great_circle_def radians_def degrees_def math_acos_def
      math_sqrt_def atan2_def Let_def)

lemma heading_equator_0: "compute_heading 0 0 0 90 = 90"
  by (simp add: compute_heading_def radians_def degrees_def atan2_def py_int_def py_fmod_def
      Let_def)

lemma heading_equator_45: "compute_heading 0 45 0 90 = 90"
  by (simp add: compute_heading_def radians_def degrees_def atan2_def py_int_def py_fmod_def
      Let_def sin_45)

lemma heading_equator_90: "compute_heading 0 90 0 90 = 0"
  by (simp add: compute_heading_def radians_def degrees_def atan2_def py_int_def py_fmod_def
      Let_def)

lemma tick_v6_0:
  "tick_v6 EQ0 EQ90 1 0 =
     Inr (1, \<lparr>out_lat = 0, out_lon = 0, out_heading = 90, out_phase = 1, out_elapsed = 0\<rparr>)"
  by (simp add: tick_v6_def phase_loop_eq TOTAL_FLIGHT_SECONDS_def EQ0_def EQ90_def
      interpolate_equator_0 heading_equator_0)

lemma tick_v6_300:
  "tick_v6 EQ0 EQ90 1 300 =
     Inr (4, \<lparr>out_lat = 0, out_lon = 45, out_heading = 90, out_phase = 4, out_elapsed = 300\<rparr>)"
  by (simp add: tick_v6_def phase_loop_eq TOTAL_FLIGHT_SECONDS_def EQ0_def EQ90_def
      interpolate_equator_half heading_equator_45)

lemma tick_v6_650:
  "tick_v6 EQ0 EQ90 4 650 =
     Inr (8, \<lparr>out_lat = 0, out_lon = 90, out_heading = 0, out_phase = 8, out_elapsed = 650\<rparr>)"
  by (simp add: tick_v6_def phase_loop_eq TOTAL_FLIGHT_SECONDS_def EQ0_def EQ90_def
      interpolate_equator_1 heading_equator_90)

lemma tick_v7_0:
  "tick_v7 EQ0 EQ90 \<lparr>current_phase = 1, oldheading = 0\<rparr> 0 =
     Inr (\<lparr>current_phase = 1, oldheading = 90\<rparr>,
          \<lparr>out_lat = 0, out_lon = 0, out_heading = 90, out_phase = 1, out_elapsed = 0\<rparr>)"
  by (simp add: tick_v7_def phase_loop_eq TOTAL_FLIGHT_SECONDS_def EQ0_def EQ90_def
      interpolate_equator_0 heading_equator_0)

lemma tick_v7_300:
  "tick_v7 EQ0 EQ90 \<lparr>current_phase = 1, oldheading = 90\<rparr> 300 =
     Inr (\<lparr>current_phase = 4, oldheading = 90\<rparr>,
          \<lparr>out_lat = 0, out_lon = 45, out_heading = 90, out_phase = 4, out_elapsed = 300\<rparr>)"
  by (simp add: tick_v7_def phase_loop_eq TOTAL_FLIGHT_SECONDS_def EQ0_def EQ90_def
      interpolate_equator_half heading_equator_45)

lemma tick_v7_650:
  "tick_v7 EQ0 EQ90 \<lparr>current_phase = 4, oldheading = 90\<rparr> 650 =
     Inr (\<lparr>current_phase = 8, oldheading = 0\<rparr>,
          \<lparr>out_lat = 0, out_lon = 90, out_heading = 0, out_phase = 8, out_elapsed = 650\<rparr>)"
  by (simp add: tick_v7_def phase_loop_eq TOTAL_FLIGHT_SECONDS_def EQ0_def EQ90_def
      interpolate_equator_1 heading_equator_90)

subsection \<open>Properties of one iteration\<close>

text \<open>
  C2. In an iteration with elapsed time above \<^verbatim>\<open>TOTAL_FLIGHT_SECONDS\<close> that reaches the
  call of the sender, the phase handed over is 8 and the position is the destination's
  latitude and longitude.
\<close>

theorem terminal_phase_forced:
  "of_int TOTAL_FLIGHT_SECONDS < elapsed \<Longrightarrow>
     (tick_v6 DEP_APT DST_APT cp elapsed = Inr (cp', out6) \<longrightarrow>
        out_phase out6 = 8 \<and> out_lat out6 = lat DST_APT \<and> out_lon out6 = lon DST_APT) \<and>
     (tick_v7 DEP_APT DST_APT st elapsed = Inr (st', out7) \<longrightarrow>
        out_phase out7 = 8 \<and> out_lat out7 = lat DST_APT \<and> out_lon out7 = lon DST_APT)"
  by (auto simp add: tick_v6_def tick_v7_def phase_loop_eq TOTAL_FLIGHT_SECONDS_def Let_def
      split: sum.splits prod.splits option.splits)

theorem terminal_phase_forced_witness:
  "of_int TOTAL_FLIGHT_SECONDS < (650 :: real) \<and>
   tick_v6 EQ0 EQ90 4 650 =
     Inr (8, \<lparr>out_lat = 0, out_lon = 90, out_heading = 0, out_phase = 8, out_elapsed = 650\<rparr>) \<and>
   tick_v7 EQ0 EQ90 \<lparr>current_phase = 4, oldheading = 90\<rparr> 650 =
     Inr (\<lparr>current_phase = 8, oldheading = 0\<rparr>,
          \<lparr>out_lat = 0, out_lon = 90, out_heading = 0, out_phase = 8, out_elapsed = 650\<rparr>) \<and>
   lat EQ90 = 0 \<and> lon EQ90 = 90"
  using terminal_phase_forced [of 650 EQ0 EQ90 4 8
      "\<lparr>out_lat = 0, out_lon = 90, out_heading = 0, out_phase = 8, out_elapsed = 650\<rparr>"
      "\<lparr>current_phase = 4, oldheading = 90\<rparr>" "\<lparr>current_phase = 8, oldheading = 0\<rparr>"
      "\<lparr>out_lat = 0, out_lon = 90, out_heading = 0, out_phase = 8, out_elapsed = 650\<rparr>"]
    tick_v6_650 tick_v7_650
  by (simp add: TOTAL_FLIGHT_SECONDS_def EQ90_def)

text \<open>
  C3. Revision 7 on entering the terminal phase: the iteration before handed over heading
  90 and left it in \<^verbatim>\<open>oldheading\<close>; the iteration at 650 seconds transmits phase 8 with
  heading 0, recomputed from the navigation model, and overwrites \<^verbatim>\<open>oldheading\<close>.
\<close>

theorem heading_recomputed_in_terminal_phase:
  "tick_v7 EQ0 EQ90 \<lparr>current_phase = 4, oldheading = 90\<rparr> 650 =
     Inr (\<lparr>current_phase = 8, oldheading = 0\<rparr>,
          \<lparr>out_lat = 0, out_lon = 90, out_heading = 0, out_phase = 8, out_elapsed = 650\<rparr>)"
  by (simp add: tick_v7_def phase_loop_eq TOTAL_FLIGHT_SECONDS_def EQ0_def EQ90_def
      interpolate_equator_1 heading_equator_90)

text \<open>The branch that would hold the heading is dead: what revision 7 transmits never
  depends on \<^verbatim>\<open>oldheading\<close>.\<close>

lemma tick_v7_ignores_oldheading:
  "map_sum id snd (tick_v7 DEP_APT DST_APT (st\<lparr>oldheading := h\<rparr>) elapsed) =
   map_sum id snd (tick_v7 DEP_APT DST_APT st elapsed)"
  by (simp add: tick_v7_def phase_loop_eq Let_def split: sum.splits prod.splits)

section \<open>Airport codes in integer slots\<close>

lemma list4: "length s = 4 \<Longrightarrow> \<exists>a b c d. s = [a, b, c, d]"
  by (auto simp add: length_Suc_conv eval_nat_numeral)

lemma horner:
  "0 \<le> d \<Longrightarrow> d < 256 \<Longrightarrow> (x * 256 + d) div 256 = (x::int) \<and> (x * 256 + d) mod 256 = d"
  by simp

lemma upt4: "[0..<4] = [0, 1, 2, 3]"
  by (simp add: eval_nat_numeral upt_rec)

lemma be_bytes4:
  "be_bytes 4 v = [nat (v div 256 div 256 div 256 mod 256), nat (v div 256 div 256 mod 256), nat (v div 256 mod 256), nat (v mod 256)]"
proof -
  have "v div 2 ^ 16 = v div 256 div 256" "v div 2 ^ 24 = v div 256 div 256 div 256"
    by (simp_all add: zdiv_zmult2_eq)
  then show ?thesis by (simp add: be_bytes_def upt4)
qed

lemma be_roundtrip4:
  assumes "a < 256" "b < 256" "c < 256" "d < 256"
  shows "be_bytes 4 (be_value [a, b, c, d]) = [a, b, c, d]"
proof -
  have "be_value [a, b, c, d] = ((int a * 256 + int b) * 256 + int c) * 256 + int d"
    by (simp add: be_value_def)
  then show ?thesis
    using assms by (simp only: be_bytes4 horner) simp
qed

lemma be_value4_bound:
  assumes "a < 128" "b < 256" "c < 256" "d < 256"
  shows "0 \<le> be_value [a, b, c, d] \<and> be_value [a, b, c, d] < 2 ^ 31"
  using assms by (simp add: be_value_def)

lemma ascii_code_roundtrip_be:
  assumes "is_ascii s" "length s = 4"
  shows "map_sum id decode_airport_v6 (case encode_ascii s of Inl e \<Rightarrow> Inl e | Inr b \<Rightarrow> unpack_be_i b) = Inr s"
proof -
  from assms(2) obtain a b c d where s: "s = [a, b, c, d]" using list4 by blast
  let ?a = "of_char a :: nat" and ?b = "of_char b :: nat" and ?c = "of_char c :: nat" and ?d = "of_char d :: nat"
  from assms(1) s have lt: "?a < 128" "?b < 128" "?c < 128" "?d < 128"
    by (simp_all add: is_ascii_def)
  then have lt': "?a < 256" "?b < 256" "?c < 256" "?d < 256" by simp_all
  have bound: "be_value [?a, ?b, ?c, ?d] < 2 ^ 31"
    using be_value4_bound [OF lt(1) lt'(2) lt'(3) lt'(4)] by simp
  have rt: "be_bytes 4 (be_value [?a, ?b, ?c, ?d]) = [?a, ?b, ?c, ?d]"
    by (rule be_roundtrip4 [OF lt'])
  show ?thesis
    using assms(1) bound rt
    by (simp add: s encode_ascii_def unpack_be_i_def decode_airport_v6_def Let_def)
qed

lemma ascii_code_roundtrip_le:
  assumes "is_ascii s" "length s = 4"
  shows "map_sum id decode_airport_v7 (case encode_ascii s of Inl e \<Rightarrow> Inl e | Inr b \<Rightarrow> unpack_le_I b) = Inr s"
proof -
  from assms(2) obtain a b c d where s: "s = [a, b, c, d]" using list4 by blast
  let ?a = "of_char a :: nat" and ?b = "of_char b :: nat" and ?c = "of_char c :: nat" and ?d = "of_char d :: nat"
  from assms(1) s have lt: "?a < 128" "?b < 128" "?c < 128" "?d < 128"
    by (simp_all add: is_ascii_def)
  then have lt': "?d < 256" "?c < 256" "?b < 256" "?a < 256" by simp_all
  have rt: "be_bytes 4 (be_value [?d, ?c, ?b, ?a]) = [?d, ?c, ?b, ?a]"
    by (rule be_roundtrip4 [OF lt'])
  show ?thesis
    using assms(1) rt
    by (simp add: s encode_ascii_def unpack_le_I_def decode_airport_v7_def)
qed

lemma is_ascii_ljust: "is_ascii s \<Longrightarrow> is_ascii (py_ljust w s)"
  by (auto simp add: is_ascii_def py_ljust_def list_all_iff)

lemma is_ascii_upper: "is_ascii s \<Longrightarrow> is_ascii (py_upper s)"
  by (auto simp add: is_ascii_def py_upper_def upper_char_def list_all_iff Let_def)

lemma is_ascii_strip: "is_ascii s \<Longrightarrow> is_ascii (py_strip s)"
proof -
  have "set (py_strip s) \<subseteq> set s"
    unfolding py_strip_def
    by (metis set_rev set_dropWhileD subsetI)
  then show "is_ascii s \<Longrightarrow> is_ascii (py_strip s)"
    by (auto simp add: is_ascii_def list_all_iff)
qed

lemma length_strip: "length (py_strip s) \<le> length s"
proof -
  have "length (dropWhile py_isspace (rev (dropWhile py_isspace s))) \<le> length (rev (dropWhile py_isspace s))"
    by (rule length_dropWhile_le)
  also have "\<dots> \<le> length s" by (simp add: length_dropWhile_le)
  finally show ?thesis by (simp add: py_strip_def)
qed

lemma length_ljust: "length s \<le> w \<Longrightarrow> length (py_ljust w s) = w"
  by (simp add: py_ljust_def)

text \<open>
  C8. For every ASCII airport code of at most four characters, encoding and decoding under
  the byte order of the revision gives back, in revision 6, the code padded with spaces to
  four characters, and in revision 7 the padded code after \<^verbatim>\<open>strip()\<close> and
  \<^verbatim>\<open>upper()\<close>.
\<close>

theorem airport_code_roundtrip:
  "is_ascii code \<Longrightarrow> length code \<le> 4 \<Longrightarrow>
     map_sum id decode_airport_v6 (encode_airport_v6 code) = Inr (py_ljust 4 code) \<and>
     map_sum id decode_airport_v7 (encode_airport_v7 code)
       = Inr (py_ljust 4 (py_upper (py_strip code)))"
proof -
  assume a: "is_ascii code" and l: "length code \<le> 4"
  have 1: "map_sum id decode_airport_v6 (encode_airport_v6 code) = Inr (py_ljust 4 code)"
    using ascii_code_roundtrip_be [of "py_ljust 4 code"] a l
    by (simp add: encode_airport_v6_def is_ascii_ljust length_ljust)
  let ?t = "py_upper (py_strip code)"
  have lt: "length ?t \<le> 4" using length_strip [of code] l by (simp add: py_upper_def)
  have at: "is_ascii ?t" using a by (simp add: is_ascii_upper is_ascii_strip)
  have 2: "map_sum id decode_airport_v7 (encode_airport_v7 code) = Inr (py_ljust 4 ?t)"
    using ascii_code_roundtrip_le [of "py_ljust 4 ?t"] at lt
    by (simp add: encode_airport_v7_def is_ascii_ljust length_ljust)
  from 1 2 show ?thesis by simp
qed

theorem airport_code_roundtrip_witness:
  "is_ascii ''JFK'' \<and> length ''JFK'' \<le> 4 \<and>
   map_sum id decode_airport_v6 (encode_airport_v6 ''JFK'') = Inr ''JFK '' \<and>
   map_sum id decode_airport_v7 (encode_airport_v7 ''JFK'') = Inr ''JFK ''"
  using airport_code_roundtrip [of "''JFK''"]
  by (simp add: is_ascii_def py_ljust_def py_upper_def py_strip_def upper_char_def py_isspace_def)

text \<open>
  A code with a leading space, as \<^verbatim>\<open>load_airports\<close> keeps it (it upper-cases the
  \<^verbatim>\<open>ThreeLetId\<close> column and does not strip it): revision 7 gives back the stripped
  code, not the original one.
\<close>

theorem airport_code_roundtrip_counterexample:
  "is_ascii '' JFK'' \<and> length '' JFK'' \<le> 4 \<and>
   map_sum id decode_airport_v7 (encode_airport_v7 '' JFK'') = Inr ''JFK '' \<and>
   ''JFK '' \<noteq> py_ljust 4 '' JFK''"
  by code_simp


section \<open>The wind component\<close>

lemma cos_lower_bound: "1 - x\<^sup>2 / 2 \<le> cos (x::real)"
proof -
  have "cos x = 1 - 2 * (sin (x / 2))\<^sup>2" using cos_double_sin [of "x / 2"] by simp
  moreover have "(sin (x / 2))\<^sup>2 \<le> (x / 2)\<^sup>2"
  proof -
    have "\<bar>sin (x / 2)\<bar> \<le> \<bar>x / 2\<bar>" by (rule abs_sin_x_le_abs_x)
    then show ?thesis by (simp only: abs_le_square_iff)
  qed
  ultimately show ?thesis by (simp add: power2_eq_square)
qed

lemma cos_10_degrees: "38 \<le> 39 * cos (pi / 18) \<and> 39 * cos (pi / 18) < 39"
proof -
  have u: "pi / 18 < 2 / 9" using pi_less_4 by simp
  have p: "0 < pi / 18" by simp
  have "(pi / 18)\<^sup>2 < (2 / 9)\<^sup>2"
    using u p by (intro power_strict_mono) simp_all
  then have "1 - (2 / 9)\<^sup>2 / 2 < 1 - (pi / 18)\<^sup>2 / 2" by simp
  also have "\<dots> \<le> cos (pi / 18)" by (rule cos_lower_bound)
  finally have lo: "38 \<le> 39 * cos (pi / 18)" by (simp add: power2_eq_square)
  have "cos (pi / 18) < cos 0"
    by (rule cos_monotone_0_pi) simp_all
  then have hi: "39 * cos (pi / 18) < 39" by simp
  from lo hi show ?thesis by simp
qed

lemma tailwind_constant: "tailwind heading = 38"
proof -
  have "tailwind heading = py_int (39 * cos (pi / 18))"
    by (simp add: tailwind_def radians_def Let_def)
  also have "\<dots> = 38"
    using cos_10_degrees by (simp add: py_int_def floor_eq_iff)
  finally show ?thesis .
qed


section \<open>Packing\<close>

lemma length_be_bytes: "length (be_bytes n v) = n"
  by (simp add: be_bytes_def)

lemma pack_one_length: "pack_one c a = Inr b \<Longrightarrow> length b = code_size c"
  by (cases c; cases a) (auto simp add: length_be_bytes split: if_splits)

lemma pack_fields_length:
  "pack_fields cs as = Inr bs \<Longrightarrow> length bs = sum_list (map code_size cs)"
proof (induction cs as arbitrary: bs rule: pack_fields.induct)
  case (2 c cs a as)
  from "2.prems" obtain b bs' where b: "pack_one c a = Inr b" and r: "pack_fields cs as = Inr bs'"
    and e: "bs = b @ bs'"
    by (auto split: sum.splits)
  from "2.IH" [OF b r] pack_one_length [OF b] e show ?case by simp
qed simp_all

lemma struct_pack_length: "struct_pack fmt args = Inr bs \<Longrightarrow> calcsize fmt = Inr (length bs)"
  by (auto simp add: struct_pack_def calcsize_def pack_fields_length split: option.splits)

lemma pack_one_ok: "fits c a \<Longrightarrow> \<exists>b. pack_one c a = Inr b"
  by (cases c; cases a) (auto simp add: int32_def)

lemma pack_fields_ok: "list_all2 fits cs as \<Longrightarrow> \<exists>bs. pack_fields cs as = Inr bs"
proof (induction rule: list_all2_induct)
  case Nil
  show ?case by simp
next
  case (Cons c cs a as)
  from Cons obtain b bs where "pack_one c a = Inr b" "pack_fields cs as = Inr bs"
    using pack_one_ok by blast
  then show ?case by simp
qed

lemma pack_one_fits: "pack_one c a = Inr b \<Longrightarrow> fits c a"
  by (cases c; cases a) (auto simp add: int32_def split: if_splits)

lemma pack_fields_fits: "pack_fields cs as = Inr bs \<Longrightarrow> list_all2 fits cs as"
proof (induction cs as arbitrary: bs rule: pack_fields.induct)
  case (2 c cs a as)
  from "2.prems" obtain b bs' where b: "pack_one c a = Inr b" and r: "pack_fields cs as = Inr bs'"
    by (auto split: sum.splits)
  from "2.IH" [OF b r] pack_one_fits [OF b] show ?case by simp
qed simp_all

lemma fits_replicate_Fi:
  "list_all int32 vs \<Longrightarrow> length vs = n \<Longrightarrow> list_all2 fits (replicate n Fi) (map PyInt vs)"
  by (induction vs arbitrary: n) auto

lemma parse_v6: "parse_format DATA_FULL_FORMAT_v6 = Some ([FH, FH] @ replicate 42 Fi @ [Fs 5])"
  unfolding DATA_FULL_FORMAT_v6_def by code_simp

lemma parse_v7:
  "parse_format DATA_FULL_FORMAT_v7 = Some ([FH, FH] @ replicate 20 Fi @ [FI] @ replicate 21 Fi)"
  unfolding DATA_FULL_FORMAT_v7_def by code_simp

lemma expected_v6: "EXPECTED_PACKET_SIZE_v6 = Inr 177"
  by (simp add: EXPECTED_PACKET_SIZE_v6_def calcsize_def parse_v6 sum_list_replicate)

lemma expected_v7: "EXPECTED_PACKET_SIZE_v7 = Inr 172"
  by (simp add: EXPECTED_PACKET_SIZE_v7_def calcsize_def parse_v7 sum_list_replicate)

lemma send_v6_size:
  "send_data_packet_v6 clk cur_lat cur_lon heading phase elapsed DEP DST DEP_APT DST_APT = Inr pkt
     \<Longrightarrow> length pkt = 177"
  by (auto simp add: send_data_packet_v6_def expected_v6 Let_def split: sum.splits if_splits)

lemma pack_one_error: "pack_one c a = Inl e \<Longrightarrow> e = StructError"
  by (cases c; cases a) (auto split: if_splits)

lemma pack_fields_error: "pack_fields cs as = Inl e \<Longrightarrow> e = StructError"
proof (induction cs as rule: pack_fields.induct)
  case (2 c cs a as)
  then show ?case by (auto split: sum.splits dest: pack_one_error)
qed simp_all

lemma struct_pack_error: "struct_pack fmt args = Inl e \<Longrightarrow> e = StructError"
  by (auto simp add: struct_pack_def split: option.splits dest: pack_fields_error)

lemma haversine_error: "haversine_distance a b c d = Inl e \<Longrightarrow> e = ValueError"
  by (auto simp add: haversine_distance_def math_sqrt_def Let_def split: sum.splits if_splits)

lemma encode_airport_v6_error: "encode_airport_v6 c = Inl e \<Longrightarrow> e \<noteq> RuntimeError"
  by (auto simp add: encode_airport_v6_def encode_ascii_def unpack_be_i_def Let_def
      split: sum.splits if_splits)

lemma encode_airport_v7_error: "encode_airport_v7 c = Inl e \<Longrightarrow> e \<noteq> RuntimeError"
  by (auto simp add: encode_airport_v7_def encode_ascii_def unpack_le_I_def Let_def
      split: sum.splits if_splits)

lemma all_42_v6_error:
  "all_42_integers_v6 clk cur_lat cur_lon heading phase elapsed DEP DST DEP_APT DST_APT = Inl e
     \<Longrightarrow> e \<noteq> RuntimeError"
  by (auto simp add: all_42_integers_v6_def math_sqrt_def Let_def
      split: sum.splits if_splits prod.splits
      dest: haversine_error encode_airport_v6_error)

lemma all_42_v7_error:
  "all_42_integers_v7 now st cur_lat cur_lon heading phase elapsed DEP DST DEP_APT DST_APT = Inl e
     \<Longrightarrow> e \<noteq> RuntimeError"
  by (auto simp add: all_42_integers_v7_def math_sqrt_def unpack_be_I_def Let_def
      split: sum.splits if_splits prod.splits
      dest: haversine_error encode_airport_v7_error struct_pack_error)

lemma send_v6_no_runtime_error:
  "send_data_packet_v6 clk cur_lat cur_lon heading phase elapsed DEP DST DEP_APT DST_APT
     \<noteq> Inl RuntimeError"
  by (auto simp add: send_data_packet_v6_def EXPECTED_PACKET_SIZE_v6_def Let_def
      split: sum.splits if_splits
      dest: all_42_v6_error struct_pack_error struct_pack_length)

lemma send_v7_size:
  "send_data_packet_v7 now st cur_lat cur_lon heading phase elapsed DEP DST DEP_APT DST_APT = Inr pkt
     \<Longrightarrow> length pkt = 172"
  by (auto simp add: send_data_packet_v7_def expected_v7 Let_def split: sum.splits if_splits)

lemma send_v7_no_runtime_error:
  "send_data_packet_v7 now st cur_lat cur_lon heading phase elapsed DEP DST DEP_APT DST_APT
     \<noteq> Inl RuntimeError"
  by (auto simp add: send_data_packet_v7_def EXPECTED_PACKET_SIZE_v7_def Let_def
      split: sum.splits if_splits
      dest: all_42_v7_error struct_pack_error struct_pack_length)

section \<open>Every well-formed input is packed, in exact arithmetic\<close>

text \<open>
  The results of this section rest on the exact haversine term, which never leaves the
  domain of the square root. They give the packets of the concrete calls used further on;
  for nearly antipodal airports the double-precision code can raise where these results
  promise a packet.
\<close>

subsection \<open>The great-circle distance is defined\<close>

lemma sin_half_squared: "sin (x / 2) * sin (x / 2) = (1 - cos x) / (2::real)"
  using cos_double_sin [of "x / 2"] by (simp add: power2_eq_square)

lemma cos_radians_nonneg: "\<bar>d\<bar> \<le> 90 \<Longrightarrow> 0 \<le> cos (radians d)"
proof -
  assume a: "\<bar>d\<bar> \<le> 90"
  from a have b: "- 90 \<le> d" "d \<le> 90" by (simp_all add: abs_le_iff)
  have l: "- 90 * pi \<le> d * pi" using b(1) by (intro mult_right_mono) simp_all
  have u: "d * pi \<le> 90 * pi" using b(2) by (intro mult_right_mono) simp_all
  have "- (pi / 2) \<le> d * pi / 180" using l by linarith
  moreover have "d * pi / 180 \<le> pi / 2" using u by linarith
  ultimately show ?thesis unfolding radians_def by (rule cos_ge_zero)
qed

lemma atan2_quadrant: "0 \<le> y \<Longrightarrow> 0 \<le> x \<Longrightarrow> 0 \<le> atan2 y x \<and> atan2 y x \<le> pi / 2"
  using arctan_ubound [of "y / x"] by (auto simp add: atan2_def)

lemma haversine_a_range:
  fixes p1 p2 l :: real
  assumes "0 \<le> cos p1" "0 \<le> cos p2"
  defines "a \<equiv> sin ((p2 - p1) / 2) * sin ((p2 - p1) / 2) + cos p1 * cos p2 * sin (l / 2) * sin (l / 2)"
  shows "0 \<le> a \<and> a \<le> 1"
proof -
  have s: "sin (l / 2) * sin (l / 2) = (1 - cos l) / 2" by (rule sin_half_squared)
  have t: "sin ((p2 - p1) / 2) * sin ((p2 - p1) / 2) = (1 - cos (p2 - p1)) / 2"
    by (rule sin_half_squared)
  have cc: "0 \<le> cos p1 * cos p2" using assms by simp
  have "a = sin ((p2 - p1) / 2) * sin ((p2 - p1) / 2)
            + cos p1 * cos p2 * (sin (l / 2) * sin (l / 2))"
    unfolding a_def by (simp only: mult.assoc)
  then have a_eq: "a = (1 - cos (p2 - p1)) / 2 + cos p1 * cos p2 * ((1 - cos l) / 2)"
    by (simp only: s t)
  have l0: "0 \<le> (1 - cos l) / 2" "(1 - cos l) / 2 \<le> 1"
    using cos_le_one [of l] cos_ge_minus_one [of l] by simp_all
  have lo: "0 \<le> a"
    unfolding a_eq using cc l0 cos_le_one [of "p2 - p1"] by simp
  have "cos p1 * cos p2 * ((1 - cos l) / 2) \<le> cos p1 * cos p2 * 1"
    using cc l0 by (intro mult_left_mono) simp_all
  then have "a \<le> (1 - cos (p2 - p1)) / 2 + cos p1 * cos p2" unfolding a_eq by simp
  also have "\<dots> = (1 + cos (p1 + p2)) / 2"
    by (simp add: cos_diff cos_add field_simps)
  also have "\<dots> \<le> 1" using cos_le_one [of "p1 + p2"] by simp
  finally show ?thesis using lo by simp
qed

lemma haversine_total:
  assumes "\<bar>lat1\<bar> \<le> 90" "\<bar>lat2\<bar> \<le> 90"
  shows "\<exists>d. haversine_distance lat1 lon1 lat2 lon2 = Inr d \<and> 0 \<le> d \<and> d \<le> 14000"
proof -
  let ?a = "sin (radians (lat2 - lat1) / 2) * sin (radians (lat2 - lat1) / 2)
            + cos (radians lat1) * cos (radians lat2) * sin (radians (lon2 - lon1) / 2)
              * sin (radians (lon2 - lon1) / 2)"
  have r: "radians (lat2 - lat1) = radians lat2 - radians lat1"
    by (simp add: radians_def field_simps)
  have a: "0 \<le> ?a \<and> ?a \<le> 1"
    unfolding r
    by (rule haversine_a_range) (use assms in \<open>simp_all add: cos_radians_nonneg\<close>)
  then have q: "0 \<le> atan2 (sqrt ?a) (sqrt (1 - ?a)) \<and> atan2 (sqrt ?a) (sqrt (1 - ?a)) \<le> pi / 2"
    by (intro atan2_quadrant) simp_all
  let ?d = "6371 * (2 * atan2 (sqrt ?a) (sqrt (1 - ?a))) * 0.539957"
  have e: "haversine_distance lat1 lon1 lat2 lon2 = Inr ?d"
    using a by (simp add: haversine_distance_def math_sqrt_def Let_def)
  have "?d \<le> 6371 * (2 * (pi / 2)) * 0.539957" using q by simp
  also have "\<dots> \<le> 6371 * 4 * 0.539957" using pi_less_4 by simp
  also have "\<dots> \<le> 14000" by simp
  finally have "?d \<le> 14000" .
  moreover have "0 \<le> ?d" using q by simp
  ultimately show ?thesis using e by blast
qed

subsection \<open>Ranges of the fields\<close>

lemma py_int_int32: "\<bar>x\<bar> \<le> 2147483647 \<Longrightarrow> int32 (py_int x)"
  unfolding int32_def py_int_def by (auto simp add: abs_le_iff)

lemma py_int_nonneg_int32: "0 \<le> x \<Longrightarrow> x \<le> 2147483647 \<Longrightarrow> int32 (py_int x)"
  by (rule py_int_int32) simp

lemma py_fmod_range: "0 < b \<Longrightarrow> 0 \<le> py_fmod a b \<and> py_fmod a b < b"
proof -
  assume b: "0 < b"
  have "of_int \<lfloor>a / b\<rfloor> \<le> a / b" "a / b < of_int \<lfloor>a / b\<rfloor> + 1" by linarith+
  then have "of_int \<lfloor>a / b\<rfloor> * b \<le> a" "a < (of_int \<lfloor>a / b\<rfloor> + 1) * b"
    using b by (simp_all only: pos_le_divide_eq pos_divide_less_eq)
  then show ?thesis by (simp add: py_fmod_def algebra_simps)
qed

lemma be_value_snoc: "be_value (bs @ [b]) = be_value bs * 256 + int b"
  by (simp add: be_value_def)

lemma be_value_range:
  "list_all (\<lambda>b. b < 256) bs \<Longrightarrow> 0 \<le> be_value bs \<and> be_value bs < 256 ^ length bs"
proof (induction bs rule: rev_induct)
  case Nil
  show ?case by (simp add: be_value_def)
next
  case (snoc b bs)
  then have ih: "0 \<le> be_value bs" "be_value bs + 1 \<le> 256 ^ length bs" and b: "b < 256"
    by simp_all
  from ih(2) have "(be_value bs + 1) * 256 \<le> 256 ^ length bs * 256" by simp
  with ih(1) b show ?case by (simp add: be_value_snoc algebra_simps)
qed

lemma be_bytes_bytes: "list_all (\<lambda>b. b < 256) (be_bytes n v)"
  by (simp add: be_bytes_def list_all_iff nat_less_iff)

lemma encode_airport_v6_total:
  assumes "is_ascii code"
  shows "\<exists>v. encode_airport_v6 code = Inr v \<and> int32 v"
proof -
  let ?s = "py_ljust 4 (take 4 code)"
  have l: "length ?s = 4" by (simp add: py_ljust_def)
  have a: "is_ascii ?s"
    using assms by (intro is_ascii_ljust) (auto simp add: is_ascii_def list_all_iff dest: in_set_takeD)
  from l obtain a b c d where s: "?s = [a, b, c, d]" using list4 by blast
  from a s have lt: "(of_char a :: nat) < 128" "(of_char b :: nat) < 256" "(of_char c :: nat) < 256"
    "(of_char d :: nat) < 256"
    by (simp_all add: is_ascii_def) 
  from be_value4_bound [OF lt] a show ?thesis
    by (simp add: encode_airport_v6_def s encode_ascii_def unpack_be_i_def Let_def int32_def)
qed

lemma encode_airport_v7_total:
  assumes "is_ascii code"
  shows "\<exists>v. encode_airport_v7 code = Inr v \<and> int32 v"
proof -
  let ?s = "take 4 (py_ljust 4 (py_upper (py_strip code)))"
  have l: "length ?s = 4" by (simp add: py_ljust_def)
  have "is_ascii (py_ljust 4 (py_upper (py_strip code)))"
    using assms by (simp add: is_ascii_ljust is_ascii_upper is_ascii_strip)
  then have a: "is_ascii ?s"
    by (auto simp add: is_ascii_def list_all_iff dest: in_set_takeD)
  from l obtain a b c d where s: "?s = [a, b, c, d]" using list4 by blast
  from a s have lt: "(of_char d :: nat) < 128" "(of_char c :: nat) < 256" "(of_char b :: nat) < 256"
    "(of_char a :: nat) < 256"
    by (simp_all add: is_ascii_def) 
  from be_value4_bound [OF lt] a show ?thesis
    by (simp add: encode_airport_v7_def s encode_ascii_def unpack_le_I_def Let_def int32_def)
qed

lemma date_enc_v7_total:
  assumes "datetime_ok now"
  shows "\<exists>b v. struct_pack ''>HBB'' [PyInt (dt_year now), PyInt (dt_month now), PyInt (dt_day now)] = Inr b
            \<and> unpack_be_I b = Inr v \<and> 0 \<le> v \<and> v < 2 ^ 32"
proof -
  have p: "parse_format ''>HBB'' = Some [FH, FB, FB]" by code_simp
  let ?b = "be_bytes 2 (dt_year now) @ be_bytes 1 (dt_month now) @ be_bytes 1 (dt_day now)"
  have 1: "struct_pack ''>HBB'' [PyInt (dt_year now), PyInt (dt_month now), PyInt (dt_day now)] = Inr ?b"
    using assms by (simp add: struct_pack_def p datetime_ok_def)
  have l: "length ?b = 4" by (simp add: length_be_bytes)
  have "list_all (\<lambda>b. b < 256) ?b" by (simp add: be_bytes_bytes)
  from be_value_range [OF this] l have "0 \<le> be_value ?b \<and> be_value ?b < 2 ^ 32" by simp
  with 1 l show ?thesis by (simp add: unpack_be_I_def)
qed

lemma date_enc_v6_range:
  assumes "clock_v6_ok clk"
  shows "int32 (push_bit 16 (tm_year clk) OR push_bit 8 (tm_mon clk) OR tm_mday clk)"
proof -
  from assms have y: "0 \<le> push_bit 16 (tm_year clk)" "push_bit 16 (tm_year clk) < 2 ^ 31"
    and m: "0 \<le> push_bit 8 (tm_mon clk)" "push_bit 8 (tm_mon clk) < 2 ^ 31"
    and d: "0 \<le> tm_mday clk" "tm_mday clk < 2 ^ 31"
    by (simp_all add: clock_v6_ok_def push_bit_eq_mult)
  have 1: "push_bit 8 (tm_mon clk) OR tm_mday clk < 2 ^ 31"
    by (rule OR_upper [OF m d(2)])
  have hi: "push_bit 16 (tm_year clk) OR (push_bit 8 (tm_mon clk) OR tm_mday clk) < 2 ^ 31"
    by (rule OR_upper [OF y 1])
  have nn: "0 \<le> push_bit 16 (tm_year clk) OR (push_bit 8 (tm_mon clk) OR tm_mday clk)"
    using y m d by simp
  have lo: "- (2 ^ 31) \<le> (0::int)" by simp
  from order_trans [OF lo nn] hi show ?thesis unfolding int32_def by blast
qed

lemma sos_v7: "77 \<le> 20.05 * sqrt 5 * (1.944::real)"
proof -
  have "2 \<le> sqrt 5" by (rule real_le_rsqrt) simp
  then have "20.05 * 2 * 1.944 \<le> 20.05 * sqrt 5 * (1.944::real)" by simp
  then show ?thesis by simp
qed

lemma abs_scaled_sin: "0 \<le> c \<Longrightarrow> \<bar>c * sin (x::real)\<bar> \<le> c"
proof -
  assume c: "0 \<le> c"
  have "\<bar>c * sin x\<bar> = c * \<bar>sin x\<bar>" using c by (simp add: abs_mult)
  also have "\<dots> \<le> c * 1" using c by (intro mult_left_mono) simp_all
  finally show ?thesis by simp
qed

lemma abs_scaled_cos: "0 \<le> c \<Longrightarrow> \<bar>c * cos (x::real)\<bar> \<le> c"
proof -
  assume c: "0 \<le> c"
  have "\<bar>c * cos x\<bar> = c * \<bar>cos x\<bar>" using c by (simp add: abs_mult)
  also have "\<dots> \<le> c * 1" using c by (intro mult_left_mono) simp_all
  finally show ?thesis by simp
qed

lemma airspeed_range:
  "360 \<le> 450 * (1 - \<bar>cos (x::real)\<bar> * 0.2) \<and> 450 * (1 - \<bar>cos x\<bar> * 0.2) \<le> 450"
proof -
  have "0 \<le> \<bar>cos x\<bar>" "\<bar>cos x\<bar> \<le> 1" by simp_all
  then show ?thesis by simp
qed

lemma int32_nonneg: "0 \<le> v \<Longrightarrow> v < n \<Longrightarrow> n \<le> 2147483648 \<Longrightarrow> int32 v"
  by (simp add: int32_def)

lemma coord_int32: "\<bar>x\<bar> \<le> 180 \<Longrightarrow> int32 (py_int (x * LAT_LON_SCALE_FACTOR))"
  by (rule py_int_int32) (simp add: LAT_LON_SCALE_FACTOR_def abs_mult)

lemma all_42_integers_v7_total:
  assumes "datetime_ok now"
    and "telemetry_ok cur_lat cur_lon heading phase elapsed DEP DST DEP_APT DST_APT"
  shows "\<exists>xs. all_42_integers_v7 now st cur_lat cur_lon heading phase elapsed DEP DST DEP_APT DST_APT
                = Inr xs \<and> length xs = 42 \<and> list_all int32 (take 20 xs) \<and>
              0 \<le> xs ! 20 \<and> xs ! 20 < 2 ^ 32 \<and> list_all int32 (drop 21 xs)"
proof -
  from assms(2) have ok: "\<bar>cur_lat\<bar> \<le> 90" "\<bar>cur_lon\<bar> \<le> 180" "int32 heading" "int32 phase"
    "0 \<le> elapsed" "elapsed < 2 ^ 31" "is_ascii DEP" "is_ascii DST"
    "is_ascii (icao DEP_APT)" "\<bar>lat DEP_APT\<bar> \<le> 90" "\<bar>lon DEP_APT\<bar> \<le> 180" "int32 (geoID DEP_APT)"
    "is_ascii (icao DST_APT)" "\<bar>lat DST_APT\<bar> \<le> 90" "\<bar>lon DST_APT\<bar> \<le> 180" "int32 (geoID DST_APT)"
    by (simp_all add: telemetry_ok_def airport_ok_def)
  obtain d where d: "haversine_distance (lat DEP_APT) (lon DEP_APT) (lat DST_APT) (lon DST_APT) = Inr d"
    "0 \<le> d" "d \<le> 14000"
    using haversine_total [OF ok(10) ok(14)] by blast
  obtain e1 where e1: "encode_airport_v7 DEP = Inr e1" "int32 e1"
    using encode_airport_v7_total [OF ok(7)] by blast
  obtain e2 where e2: "encode_airport_v7 (icao DEP_APT) = Inr e2" "int32 e2"
    using encode_airport_v7_total [OF ok(9)] by blast
  obtain e3 where e3: "encode_airport_v7 DST = Inr e3" "int32 e3"
    using encode_airport_v7_total [OF ok(8)] by blast
  obtain e4 where e4: "encode_airport_v7 (icao DST_APT) = Inr e4" "int32 e4"
    using encode_airport_v7_total [OF ok(13)] by blast
  obtain b v where dt: "struct_pack ''>HBB'' [PyInt (dt_year now), PyInt (dt_month now), PyInt (dt_day now)] = Inr b"
    "unpack_be_I b = Inr v" "0 \<le> v" "v < 2 ^ 32"
    using date_enc_v7_total [OF assms(1)] by blast
  define F where "F = min (elapsed / real_of_int TOTAL_FLIGHT_SECONDS) 1"
  define ALT :: real where "ALT = (if F < 1 then 35000 * sin (pi * F) else 0)"
  define VS :: real where "VS = (if F < 1 then 3000 * cos (pi * F) else 0)"
  define TAS :: real where "TAS = 450 * (1 - \<bar>cos (pi * F)\<bar> * 0.2)"
  define SOS :: real where "SOS = 20.05 * sqrt (real_of_int 5) * 1.944"
  define PR :: "int \<times> int" where "PR =
             (if phase = 2 then (py_int (5 + 5 * min elapsed 30 / 30), 0)
              else if phase = 3 then (5, 0)
              else if phase = 4 then (0, 0)
              else if phase = 5 then (- 2, 0)
              else if phase = 6 then (2, 0)
              else if phase = 7 then (5, 0)
              else (0, 0))"
  have F: "0 \<le> F" "F \<le> 1" using ok(5) by (simp_all add: F_def TOTAL_FLIGHT_SECONDS_def)
  have ALT: "\<bar>ALT\<bar> \<le> 35000"
    using abs_scaled_sin [of 35000 "pi * F"] by (simp add: ALT_def del: abs_mult_self_eq)
  have VS: "\<bar>VS\<bar> \<le> 3000"
    using abs_scaled_cos [of 3000 "pi * F"] by (simp add: VS_def)
  have TAS: "360 \<le> TAS" "TAS \<le> 450"
    using airspeed_range [of "pi * F"] unfolding TAS_def by blast+
  have SOS: "77 \<le> SOS" using sos_v7 by (simp add: SOS_def)
  have M: "0 \<le> TAS / SOS" "TAS / SOS \<le> 6"
  proof -
    show "0 \<le> TAS / SOS" using TAS SOS by simp
    have "TAS \<le> 6 * SOS" using TAS SOS by linarith
    then show "TAS / SOS \<le> 6" using SOS by (simp add: pos_divide_le_eq)
  qed
  have DF: "0 \<le> d * F" "d * F \<le> 14000"
  proof -
    show "0 \<le> d * F" using d F by simp
    have "d * F \<le> d * 1" using d F by (intro mult_left_mono) simp_all
    then show "d * F \<le> 14000" using d by simp
  qed
  have PR: "int32 (fst PR)" "int32 (snd PR)"
    using ok(5) by (auto simp add: PR_def int32_def py_int_def)
  have ETA: "0 \<le> estimated_arrival_time_v7 st" "estimated_arrival_time_v7 st < 1440"
    using py_fmod_range [of 1440] by (simp_all add: estimated_arrival_time_v7_def Let_def)
  have sq: "math_sqrt (real_of_int 5) = Inr (sqrt (real_of_int 5))" by (simp add: math_sqrt_def)
  have sos: "(SOS = 0) = False" using SOS by simp
  have c: "int32 (py_int (cur_lat * LAT_LON_SCALE_FACTOR))"
    "int32 (py_int (cur_lon * LAT_LON_SCALE_FACTOR))"
    "int32 (py_int (lat DEP_APT * LAT_LON_SCALE_FACTOR))"
    "int32 (py_int (lon DEP_APT * LAT_LON_SCALE_FACTOR))"
    "int32 (py_int (lat DST_APT * LAT_LON_SCALE_FACTOR))"
    "int32 (py_int (lon DST_APT * LAT_LON_SCALE_FACTOR))"
    using ok by (simp_all add: coord_int32)
  have f: "int32 (py_int (TAS * 0.95))" "int32 (py_int TAS)" "int32 (py_int (d - d * F))"
    "int32 (py_int (d * F))" "int32 (py_int ALT)"
    "int32 (py_int (max (real_of_int TOTAL_FLIGHT_SECONDS - elapsed) 0 / 60))"
    "int32 (py_int (elapsed / 60))" "int32 (py_int (estimated_arrival_time_v7 st))"
    "int32 (py_int (d * F * 100))"
    "int32 (py_int (ALT * 100))" "int32 (py_int VS)"
    using TAS DF d ALT VS ok(5,6) ETA
    by (intro py_int_int32; simp add: TOTAL_FLIGHT_SECONDS_def)+
  have m: "int32 (py_int (TAS / SOS * 1000))"
  proof (rule py_int_nonneg_int32)
    show "0 \<le> TAS / SOS * 1000" using M(1) by (rule mult_nonneg_nonneg) simp
    have "TAS / SOS * 1000 \<le> 6 * 1000" using M(2) by (rule mult_right_mono) simp
    then show "TAS / SOS * 1000 \<le> 2147483647" by linarith
  qed
  have g: "int32 (tailwind heading)"
    "int32 ((dt_hour now * 3600 + dt_minute now * 60 + dt_second now) mod 86400)"
  proof -
    show "int32 (tailwind heading)" by (simp add: tailwind_constant int32_def)
    let ?t = "(dt_hour now * 3600 + dt_minute now * 60 + dt_second now) mod 86400"
    have "0 \<le> ?t" "?t < 86400" by simp_all
    then show "int32 ?t" by (rule int32_nonneg) simp
  qed
  have goal: "length xs = 42 \<and> list_all int32 (take 20 xs) \<and> 0 \<le> xs ! 20 \<and> xs ! 20 < 2 ^ 32
              \<and> list_all int32 (drop 21 xs)"
    if "xs = [1, py_int (cur_lat * LAT_LON_SCALE_FACTOR),
               py_int (cur_lon * LAT_LON_SCALE_FACTOR),
               py_int (TAS * 0.95), py_int TAS, 14, 39,
               py_int (d - d * F), py_int (d * F), py_int ALT, 5,
               py_int (max (real_of_int TOTAL_FLIGHT_SECONDS - elapsed) 0 / 60),
               py_int (elapsed / 60), heading, heading, tailwind heading,
               py_int (estimated_arrival_time_v7 st),
               py_int (TAS / SOS * 1000), py_int (d * F * 100),
               (dt_hour now * 3600 + dt_minute now * 60 + dt_second now) mod 86400,
               v, py_int (lat DEP_APT * LAT_LON_SCALE_FACTOR),
               py_int (lon DEP_APT * LAT_LON_SCALE_FACTOR), e1, e2,
               geoID DEP_APT, py_int (lat DST_APT * LAT_LON_SCALE_FACTOR),
               py_int (lon DST_APT * LAT_LON_SCALE_FACTOR), e3, e4,
               geoID DST_APT, phase, 1, 1, 0, 0, 1, 1, py_int (ALT * 100),
               py_int VS, fst PR, snd PR]" for xs
    unfolding that using c f g m ok(3,4,12,16) e1(2) e2(2) e3(2) e4(2) dt(3,4) PR
    by (simp add: int32_def)
  show ?thesis
    apply (unfold all_42_integers_v7_def Let_def)
    apply (fold F_def)
    apply (fold ALT_def VS_def TAS_def PR_def)
    apply (simp only: sq sum.case)
    apply (fold SOS_def)
    apply (simp only: sos if_False d e1 e2 e3 e4 dt sum.case split_beta)
    apply (rule exI, rule conjI, rule refl)
    apply (rule goal)
    apply (rule refl)
    done
qed

lemma py_int_bounds: "0 \<le> x \<Longrightarrow> x \<le> real_of_int b \<Longrightarrow> 0 \<le> py_int x \<and> py_int x \<le> b"
  by (simp add: py_int_def floor_le_iff)

lemma py_int_int32_lt: "0 \<le> x \<Longrightarrow> x < 2147483648 \<Longrightarrow> int32 (py_int x)"
  by (simp add: py_int_def int32_def floor_less_iff)

lemma py_int_abs: "\<bar>x\<bar> \<le> real_of_int b \<Longrightarrow> \<bar>py_int x\<bar> \<le> b"
  unfolding py_int_def by (auto simp add: abs_le_iff) linarith+

lemma all_42_integers_v6_total:
  assumes "clock_v6_ok clk"
    and "telemetry_ok cur_lat cur_lon heading phase elapsed DEP DST DEP_APT DST_APT"
  shows "\<exists>xs. all_42_integers_v6 clk cur_lat cur_lon heading phase elapsed DEP DST DEP_APT DST_APT
                = Inr xs \<and> length xs = 42 \<and> list_all int32 xs"
proof -
  from assms(2) have ok: "\<bar>cur_lat\<bar> \<le> 90" "\<bar>cur_lon\<bar> \<le> 180" "int32 heading" "int32 phase"
    "0 \<le> elapsed" "elapsed < 2 ^ 31" "is_ascii DEP" "is_ascii DST"
    "is_ascii (icao DEP_APT)" "\<bar>lat DEP_APT\<bar> \<le> 90" "\<bar>lon DEP_APT\<bar> \<le> 180" "int32 (geoID DEP_APT)"
    "is_ascii (icao DST_APT)" "\<bar>lat DST_APT\<bar> \<le> 90" "\<bar>lon DST_APT\<bar> \<le> 180" "int32 (geoID DST_APT)"
    by (simp_all add: telemetry_ok_def airport_ok_def)
  obtain d where d: "haversine_distance (lat DEP_APT) (lon DEP_APT) (lat DST_APT) (lon DST_APT) = Inr d"
    "0 \<le> d" "d \<le> 14000"
    using haversine_total [OF ok(10) ok(14)] by blast
  obtain e1 where e1: "encode_airport_v6 DEP = Inr e1" "int32 e1"
    using encode_airport_v6_total [OF ok(7)] by blast
  obtain e2 where e2: "encode_airport_v6 (icao DEP_APT) = Inr e2" "int32 e2"
    using encode_airport_v6_total [OF ok(9)] by blast
  obtain e3 where e3: "encode_airport_v6 DST = Inr e3" "int32 e3"
    using encode_airport_v6_total [OF ok(8)] by blast
  obtain e4 where e4: "encode_airport_v6 (icao DST_APT) = Inr e4" "int32 e4"
    using encode_airport_v6_total [OF ok(13)] by blast
  define F where "F = min (elapsed / real_of_int TOTAL_FLIGHT_SECONDS) 1"
  define ALT :: real where "ALT = (if F < 1 then 35000 * sin (pi * F) else 0)"
  define VS :: real where "VS = (if F < 1 then 3000 * cos (pi * F) else 0)"
  define TAS :: real where "TAS = 450 * (1 - \<bar>cos (pi * F)\<bar> * 0.2)"
  define TEMP :: real where "TEMP = 288.15 - 0.0065 * ALT"
  define SOS :: real where "SOS = 20.05 * sqrt TEMP * 1.944"
  define PR :: "int \<times> int" where "PR =
             (if phase = 2 then (py_int (5 + 5 * min elapsed 30 / 30), 0)
              else if phase = 3 then (5, py_int (5 * sin (elapsed / 10)))
              else if phase = 4 then (0, 0)
              else if phase = 5 then (- 2, py_int (5 * sin (elapsed / 10)))
              else if phase = 6 then (2, 0)
              else if phase = 7 then (5, 0)
              else (0, 0))"
  have F: "0 \<le> F" "F \<le> 1" using ok(5) by (simp_all add: F_def TOTAL_FLIGHT_SECONDS_def)
  have ALT: "\<bar>ALT\<bar> \<le> 35000"
    using abs_scaled_sin [of 35000 "pi * F"] by (simp add: ALT_def del: abs_mult_self_eq)
  have VS: "\<bar>VS\<bar> \<le> 3000"
    using abs_scaled_cos [of 3000 "pi * F"] by (simp add: VS_def)
  have TAS: "360 \<le> TAS" "TAS \<le> 450"
    using airspeed_range [of "pi * F"] unfolding TAS_def by blast+
  have TEMP: "49 \<le> TEMP" "TEMP \<le> 516" using ALT by (simp_all add: TEMP_def abs_le_iff)
  have sq: "math_sqrt TEMP = Inr (sqrt TEMP)" using TEMP by (simp add: math_sqrt_def)
  have "7 \<le> sqrt TEMP" using TEMP by (intro real_le_rsqrt) simp
  then have "20.05 * 7 * 1.944 \<le> 20.05 * sqrt TEMP * 1.944" by simp
  then have SOS: "272 \<le> SOS" by (simp add: SOS_def)
  have sos: "(SOS = 0) = False" using SOS by simp
  have M: "0 \<le> TAS / SOS" "TAS / SOS \<le> 2"
  proof -
    show "0 \<le> TAS / SOS" using TAS SOS by simp
    have "TAS \<le> 2 * SOS" using TAS SOS by linarith
    then show "TAS / SOS \<le> 2" using SOS by (simp add: pos_divide_le_eq)
  qed
  have DF: "0 \<le> d * F" "d * F \<le> 14000"
  proof -
    show "0 \<le> d * F" using d F by simp
    have "d * F \<le> d * 1" using d F by (intro mult_left_mono) simp_all
    then show "d * F \<le> 14000" using d by simp
  qed
  have r5: "int32 (py_int (5 * sin (elapsed / 10)))"
    using abs_scaled_sin [of 5 "elapsed / 10"] by (intro py_int_int32) linarith
  have PR: "int32 (fst PR)" "int32 (snd PR)"
  proof -
    show "int32 (fst PR)" using ok(5) by (auto simp add: PR_def int32_def py_int_def)
    show "int32 (snd PR)" using r5 by (auto simp add: PR_def int32_def)
  qed
  have c: "int32 (py_int (cur_lat * LAT_LON_SCALE_FACTOR))"
    "int32 (py_int (cur_lon * LAT_LON_SCALE_FACTOR))"
    "int32 (py_int (lat DEP_APT * LAT_LON_SCALE_FACTOR))"
    "int32 (py_int (lon DEP_APT * LAT_LON_SCALE_FACTOR))"
    "int32 (py_int (lat DST_APT * LAT_LON_SCALE_FACTOR))"
    "int32 (py_int (lon DST_APT * LAT_LON_SCALE_FACTOR))"
    using ok by (simp_all add: coord_int32)
  from assms(1) have clk: "0 \<le> time_first clk" "time_first clk < 2 ^ 31 - 601"
    "0 \<le> time_second clk" "time_second clk < 2 ^ 31"
    by (simp_all add: clock_v6_ok_def)
  have f: "int32 (py_int (TAS * 0.95))" "int32 (py_int TAS)" "int32 (py_int (d - d * F))"
    "int32 (py_int (ALT * 100))" "int32 (py_int TEMP)"
    "int32 (py_int (max (real_of_int TOTAL_FLIGHT_SECONDS - elapsed) 0))"
    "int32 (py_int (d * F * 100))" "int32 (py_int VS)"
    using TAS DF d ALT VS TEMP ok(5,6)
    by (intro py_int_int32; simp add: TOTAL_FLIGHT_SECONDS_def)+
  have f': "int32 (py_int elapsed)" "int32 (py_int (time_second clk))"
    using ok(5,6) clk by (intro py_int_int32_lt; simp)+
  have m: "int32 (py_int (TAS / SOS * 10000))"
  proof (rule py_int_nonneg_int32)
    show "0 \<le> TAS / SOS * 10000" using M(1) by (rule mult_nonneg_nonneg) simp
    have "TAS / SOS * 10000 \<le> 2 * 10000" using M(2) by (rule mult_right_mono) simp
    then show "TAS / SOS * 10000 \<le> 2147483647" by linarith
  qed
  have vs: "int32 (py_int VS * 100)"
  proof -
    have "\<bar>py_int VS\<bar> \<le> 3000" using VS by (intro py_int_abs) simp
    then show ?thesis by (simp add: int32_def abs_le_iff)
  qed
  have eta: "int32 (estimated_arrival_time_v6 clk elapsed)"
  proof -
    have a: "0 \<le> py_int (time_first clk) \<and> py_int (time_first clk) \<le> 2147483047"
      using clk by (intro py_int_bounds) simp_all
    have b: "0 \<le> py_int (max (600 - elapsed) 0) \<and> py_int (max (600 - elapsed) 0) \<le> 600"
      using ok(5) by (intro py_int_bounds) simp_all
    from a b show ?thesis
      by (simp add: estimated_arrival_time_v6_def TOTAL_FLIGHT_SECONDS_def Let_def int32_def)
  qed
  have g: "int32 (tailwind heading)"
    "int32 (push_bit 16 (tm_year clk) OR push_bit 8 (tm_mon clk) OR tm_mday clk)"
    using date_enc_v6_range [OF assms(1)] by (simp_all add: tailwind_constant int32_def)
  have goal: "length xs = 42 \<and> list_all int32 xs"
    if "xs = [1, py_int (cur_lat * LAT_LON_SCALE_FACTOR),
               py_int (cur_lon * LAT_LON_SCALE_FACTOR),
               py_int (TAS * 0.95), py_int TAS, 14, 39,
               py_int (d - d * F), 4, py_int (ALT * 100), py_int TEMP,
               py_int (max (real_of_int TOTAL_FLIGHT_SECONDS - elapsed) 0),
               py_int elapsed, heading, py_int VS * 100, tailwind heading,
               estimated_arrival_time_v6 clk elapsed,
               py_int (TAS / SOS * 10000), py_int (d * F * 100),
               py_int (time_second clk),
               push_bit 16 (tm_year clk) OR push_bit 8 (tm_mon clk) OR tm_mday clk,
               py_int (lat DEP_APT * LAT_LON_SCALE_FACTOR),
               py_int (lon DEP_APT * LAT_LON_SCALE_FACTOR), e1, e2,
               geoID DEP_APT, py_int (lat DST_APT * LAT_LON_SCALE_FACTOR),
               py_int (lon DST_APT * LAT_LON_SCALE_FACTOR), e3, e4,
               geoID DST_APT, phase, 1, 0, 0, 0, 4, 2, 2, py_int VS, fst PR, snd PR]" for xs
    unfolding that using c f f' g m vs eta ok(3,4,12,16) e1(2) e2(2) e3(2) e4(2) PR
    by (simp add: int32_def)
  show ?thesis
    apply (unfold all_42_integers_v6_def Let_def)
    apply (fold F_def)
    apply (fold ALT_def VS_def TAS_def PR_def)
    apply (fold TEMP_def)
    apply (simp only: sq sum.case)
    apply (fold SOS_def)
    apply (simp only: sos not_False_eq_True if_True d e1 e2 e3 e4 sum.case split_beta)
    apply (rule exI, rule conjI, rule refl)
    apply (rule goal)
    apply (rule refl)
    done
qed


subsection \<open>Single fields\<close>

text \<open>Heading, wind component, estimated arrival time, time of day, a city id and phase, by their
  index in \<^verbatim>\<open>all_42_integers\<close>. Field 19 is a clock reading: two calls with the same
  arguments at different times encode different lists.\<close>

lemma all_42_v7_fields:
  "all_42_integers_v7 now start_time cur_lat cur_lon heading phase elapsed DEP DST DEP_APT DST_APT
     = Inr xs \<Longrightarrow>
   xs ! 13 = heading \<and> xs ! 15 = tailwind heading \<and>
   xs ! 16 = py_int (estimated_arrival_time_v7 start_time) \<and>
   xs ! 19 = (dt_hour now * 3600 + dt_minute now * 60 + dt_second now) mod 86400 \<and>
   xs ! 31 = phase"
  by (auto simp add: all_42_integers_v7_def Let_def split: sum.splits if_splits prod.splits)

lemma all_42_v6_fields:
  "all_42_integers_v6 clk cur_lat cur_lon heading phase elapsed DEP DST DEP_APT DST_APT = Inr xs \<Longrightarrow>
   xs ! 13 = heading \<and> xs ! 15 = tailwind heading \<and>
   xs ! 16 = estimated_arrival_time_v6 clk elapsed \<and>
   xs ! 19 = py_int (time_second clk) \<and> xs ! 30 = geoID DST_APT \<and> xs ! 31 = phase \<and>
   length xs = 42"
  by (auto simp add: all_42_integers_v6_def Let_def split: sum.splits if_splits prod.splits)

subsection \<open>The sender\<close>

lemma send_data_packet_v6_total:
  assumes "clock_v6_ok clk"
    and "telemetry_ok cur_lat cur_lon heading phase elapsed DEP DST DEP_APT DST_APT"
  shows "\<exists>pkt. send_data_packet_v6 clk cur_lat cur_lon heading phase elapsed DEP DST DEP_APT DST_APT
                 = Inr pkt"
proof -
  obtain xs where xs: "all_42_integers_v6 clk cur_lat cur_lon heading phase elapsed DEP DST
                         DEP_APT DST_APT = Inr xs" "length xs = 42" "list_all int32 xs"
    using all_42_integers_v6_total [OF assms] by blast
  let ?args = "[PyInt MAGIC_ID, PyInt DATA_PACKET_TYPE] @ map PyInt xs @ [PyBytes (map of_char ''RC901'')]"
  have "list_all2 fits ([FH, FH] @ replicate 42 Fi @ [Fs 5]) ?args"
    using xs(2,3)
    by (intro list_all2_appendI fits_replicate_Fi) (simp_all add: MAGIC_ID_def DATA_PACKET_TYPE_def)
  then obtain bs where "pack_fields ([FH, FH] @ replicate 42 Fi @ [Fs 5]) ?args = Inr bs"
    using pack_fields_ok by blast
  then have bs: "struct_pack DATA_FULL_FORMAT_v6 ?args = Inr bs"
    by (simp add: struct_pack_def parse_v6)
  from struct_pack_length [OF bs] have ex: "EXPECTED_PACKET_SIZE_v6 = Inr (length bs)"
    by (simp add: EXPECTED_PACKET_SIZE_v6_def)
  have "send_data_packet_v6 clk cur_lat cur_lon heading phase elapsed DEP DST DEP_APT DST_APT = Inr bs"
    unfolding send_data_packet_v6_def Let_def xs(1) using bs by (simp add: xs(2) ex)
  then show ?thesis by blast
qed

lemma send_data_packet_v7_total:
  assumes "datetime_ok now"
    and "telemetry_ok cur_lat cur_lon heading phase elapsed DEP DST DEP_APT DST_APT"
  shows "\<exists>pkt. send_data_packet_v7 now st cur_lat cur_lon heading phase elapsed DEP DST DEP_APT DST_APT
                 = Inr pkt"
proof -
  obtain xs where xs: "all_42_integers_v7 now st cur_lat cur_lon heading phase elapsed DEP DST
                         DEP_APT DST_APT = Inr xs" "length xs = 42" "list_all int32 (take 20 xs)"
    "0 \<le> xs ! 20" "xs ! 20 < 2 ^ 32" "list_all int32 (drop 21 xs)"
    using all_42_integers_v7_total [OF assms] by blast
  have split: "xs = take 20 xs @ [xs ! 20] @ drop 21 xs"
    using xs(2) id_take_nth_drop [of 20 xs] by simp
  let ?args = "[PyInt MAGIC_ID, PyInt DATA_PACKET_TYPE] @ map PyInt (take 20 xs) @ [PyInt (xs ! 20)]
               @ map PyInt (drop 21 xs)"
  have "list_all2 fits ([FH, FH] @ replicate 20 Fi @ [FI] @ replicate 21 Fi) ?args"
    using xs(2-6)
    by (intro list_all2_appendI fits_replicate_Fi) (simp_all add: MAGIC_ID_def DATA_PACKET_TYPE_def)
  then obtain bs
    where "pack_fields ([FH, FH] @ replicate 20 Fi @ [FI] @ replicate 21 Fi) ?args = Inr bs"
    using pack_fields_ok by blast
  moreover have "[PyInt MAGIC_ID, PyInt DATA_PACKET_TYPE] @ map PyInt xs = ?args"
    by (subst split) simp
  ultimately have bs: "struct_pack DATA_FULL_FORMAT_v7
                         ([PyInt MAGIC_ID, PyInt DATA_PACKET_TYPE] @ map PyInt xs) = Inr bs"
    by (simp add: struct_pack_def parse_v7)
  from struct_pack_length [OF bs] have ex: "EXPECTED_PACKET_SIZE_v7 = Inr (length bs)"
    by (simp add: EXPECTED_PACKET_SIZE_v7_def)
  have "send_data_packet_v7 now st cur_lat cur_lon heading phase elapsed DEP DST DEP_APT DST_APT = Inr bs"
    unfolding send_data_packet_v7_def Let_def xs(1) using bs by (simp add: ex)
  then show ?thesis by blast
qed

lemma jfk_ord_ok: "telemetry_ok 41.5 (- 80.75) 278 4 300 ''JFK'' ''ORD'' JFK ORD"
  by (simp add: telemetry_ok_def airport_ok_def JFK_def ORD_def is_ascii_def int32_def INVALDATA_def)

lemma now_ok: "datetime_ok NOW"
  by (simp add: datetime_ok_def NOW_def)

lemma clock6_ok: "clock_v6_ok CLOCK6"
  by (simp add: clock_v6_ok_def CLOCK6_def)

subsection \<open>The bytes of a packet\<close>

text \<open>A packet is the concatenation of its fields: the two header words, the 42 integers
  in four big-endian bytes each and, in revision 6, the flight string.\<close>

lemma pack_fields_append:
  "length cs1 = length as1 \<Longrightarrow> pack_fields (cs1 @ cs2) (as1 @ as2) = Inr bs \<Longrightarrow>
   \<exists>b1 b2. pack_fields cs1 as1 = Inr b1 \<and> pack_fields cs2 as2 = Inr b2 \<and> bs = b1 @ b2"
proof (induction cs1 as1 arbitrary: bs rule: list_induct2)
  case Nil
  then show ?case by simp
next
  case (Cons c cs a as)
  then show ?case by (auto split: sum.splits)
qed

lemma pack_fields_ints:
  "pack_fields cs (map PyInt vs) = Inr bs \<Longrightarrow> list_all (\<lambda>c. c = Fi \<or> c = FI) cs \<Longrightarrow>
   bs = concat (map (be_bytes 4) vs)"
proof (induction cs arbitrary: vs bs)
  case Nil
  then show ?case by (cases vs) simp_all
next
  case (Cons c cs)
  then show ?case by (cases vs) (auto split: sum.splits if_splits)
qed

lemma all_42_v7_length:
  "all_42_integers_v7 now start_time cur_lat cur_lon heading phase elapsed DEP DST DEP_APT DST_APT
     = Inr xs \<Longrightarrow> length xs = 42"
  by (auto simp add: all_42_integers_v7_def Let_def split: sum.splits if_splits prod.splits)

lemma send_v7_bytes:
  assumes "send_data_packet_v7 now st cur_lat cur_lon heading phase elapsed DEP DST DEP_APT DST_APT
             = Inr pkt"
  shows "\<exists>xs. all_42_integers_v7 now st cur_lat cur_lon heading phase elapsed DEP DST DEP_APT DST_APT
                = Inr xs \<and>
              pkt = be_bytes 2 MAGIC_ID @ be_bytes 2 DATA_PACKET_TYPE @ concat (map (be_bytes 4) xs)"
proof -
  from assms obtain xs
    where xs: "all_42_integers_v7 now st cur_lat cur_lon heading phase elapsed DEP DST DEP_APT DST_APT
                 = Inr xs"
      and p: "struct_pack DATA_FULL_FORMAT_v7 ([PyInt MAGIC_ID, PyInt DATA_PACKET_TYPE] @ map PyInt xs)
                = Inr pkt"
    by (auto simp add: send_data_packet_v7_def Let_def split: sum.splits if_splits)
  from p have "pack_fields ([FH, FH] @ (replicate 20 Fi @ [FI] @ replicate 21 Fi))
                 ([PyInt MAGIC_ID, PyInt DATA_PACKET_TYPE] @ map PyInt xs) = Inr pkt"
    by (simp add: struct_pack_def parse_v7)
  from pack_fields_append [OF _ this] obtain b1 b2
    where b1: "pack_fields [FH, FH] [PyInt MAGIC_ID, PyInt DATA_PACKET_TYPE] = Inr b1"
      and b2: "pack_fields (replicate 20 Fi @ [FI] @ replicate 21 Fi) (map PyInt xs) = Inr b2"
      and e: "pkt = b1 @ b2"
    by auto
  from b1 have "b1 = be_bytes 2 MAGIC_ID @ be_bytes 2 DATA_PACKET_TYPE"
    by (simp add: MAGIC_ID_def DATA_PACKET_TYPE_def)
  moreover from b2 have "b2 = concat (map (be_bytes 4) xs)"
    by (rule pack_fields_ints) (simp add: list_all_iff)
  ultimately show ?thesis using xs e by simp
qed

lemma send_v6_bytes:
  assumes "send_data_packet_v6 clk cur_lat cur_lon heading phase elapsed DEP DST DEP_APT DST_APT
             = Inr pkt"
  shows "\<exists>xs. all_42_integers_v6 clk cur_lat cur_lon heading phase elapsed DEP DST DEP_APT DST_APT
                = Inr xs \<and>
              pkt = be_bytes 2 MAGIC_ID @ be_bytes 2 DATA_PACKET_TYPE @ concat (map (be_bytes 4) xs)
                    @ map of_char ''RC901''"
proof -
  from assms obtain xs
    where xs: "all_42_integers_v6 clk cur_lat cur_lon heading phase elapsed DEP DST DEP_APT DST_APT
                 = Inr xs"
      and l: "length xs = 42"
      and p: "struct_pack DATA_FULL_FORMAT_v6
                ([PyInt MAGIC_ID, PyInt DATA_PACKET_TYPE] @ map PyInt xs
                 @ [PyBytes (map of_char ''RC901'')]) = Inr pkt"
    by (auto simp add: send_data_packet_v6_def Let_def split: sum.splits if_splits)
  from p have "pack_fields ([FH, FH] @ (replicate 42 Fi @ [Fs 5]))
                 ([PyInt MAGIC_ID, PyInt DATA_PACKET_TYPE] @ (map PyInt xs
                  @ [PyBytes (map of_char ''RC901'')])) = Inr pkt"
    by (simp add: struct_pack_def parse_v6)
  from pack_fields_append [OF _ this] obtain b1 b2
    where b1: "pack_fields [FH, FH] [PyInt MAGIC_ID, PyInt DATA_PACKET_TYPE] = Inr b1"
      and b2: "pack_fields (replicate 42 Fi @ [Fs 5]) (map PyInt xs @ [PyBytes (map of_char ''RC901'')])
                 = Inr b2"
      and e: "pkt = b1 @ b2"
    by auto
  from pack_fields_append [OF _ b2] l obtain b3 b4
    where b3: "pack_fields (replicate 42 Fi) (map PyInt xs) = Inr b3"
      and b4: "pack_fields [Fs 5] [PyBytes (map of_char ''RC901'')] = Inr b4"
      and e2: "b2 = b3 @ b4"
    by auto
  from b1 have "b1 = be_bytes 2 MAGIC_ID @ be_bytes 2 DATA_PACKET_TYPE"
    by (simp add: MAGIC_ID_def DATA_PACKET_TYPE_def)
  moreover from b3 have "b3 = concat (map (be_bytes 4) xs)"
    by (rule pack_fields_ints) (simp add: list_all_iff)
  moreover from b4 have "b4 = map of_char ''RC901''" by simp
  ultimately show ?thesis using xs e e2 by simp
qed

lemma now2_ok: "datetime_ok NOW2"
  by (simp add: datetime_ok_def NOW2_def)

lemma packets_differ:
  assumes "pkt = h @ concat (map (be_bytes 4) xs)" "pkt' = h @ concat (map (be_bytes 4) xs')"
    and "length xs = length xs'" "k < length xs" "be_bytes 4 (xs ! k) \<noteq> be_bytes 4 (xs' ! k)"
  shows "pkt \<noteq> pkt'"
proof
  assume "pkt = pkt'"
  with assms(1,2) have "concat (map (be_bytes 4) xs) = concat (map (be_bytes 4) xs')" by simp
  moreover have "\<forall>(x, y) \<in> set (zip (map (be_bytes 4) xs) (map (be_bytes 4) xs')). length x = length y"
    by (auto simp add: length_be_bytes zip_map1 zip_map2)
  ultimately have "map (be_bytes 4) xs = map (be_bytes 4) xs'"
    using assms(3) concat_eq_concat_iff [of "map (be_bytes 4) xs" "map (be_bytes 4) xs'"] by simp
  then have "map (be_bytes 4) xs ! k = map (be_bytes 4) xs' ! k" by simp
  with assms(3,4,5) show False by simp
qed

text \<open>
  C1. The declared size is 177 bytes in revision 6 and 172 bytes in revision 7. Every packet
  the sender produces has the declared size of its revision, and the size check of the
  sender never raises. The encoding is deterministic: the packet is the big-endian encoding
  of the two header words, of the 42 integers computed from the arguments and from the
  clock readings of the call and, in revision 6, of the flight string, so that calls with
  the same arguments and the same clock readings produce the same bytes.
\<close>

theorem packet_size:
  "EXPECTED_PACKET_SIZE_v6 = Inr 177 \<and> EXPECTED_PACKET_SIZE_v7 = Inr 172 \<and>
   (\<forall>pkt. send_data_packet_v6 clk cur_lat cur_lon heading phase elapsed DEP DST DEP_APT DST_APT
            = Inr pkt \<longrightarrow>
          length pkt = 177 \<and>
          (\<exists>xs. all_42_integers_v6 clk cur_lat cur_lon heading phase elapsed DEP DST DEP_APT DST_APT
                   = Inr xs \<and>
                 pkt = be_bytes 2 MAGIC_ID @ be_bytes 2 DATA_PACKET_TYPE
                       @ concat (map (be_bytes 4) xs) @ map of_char ''RC901'')) \<and>
   (\<forall>pkt. send_data_packet_v7 now start_time cur_lat cur_lon heading phase elapsed DEP DST
            DEP_APT DST_APT = Inr pkt \<longrightarrow>
          length pkt = 172 \<and>
          (\<exists>xs. all_42_integers_v7 now start_time cur_lat cur_lon heading phase elapsed DEP DST
                   DEP_APT DST_APT = Inr xs \<and>
                 pkt = be_bytes 2 MAGIC_ID @ be_bytes 2 DATA_PACKET_TYPE
                       @ concat (map (be_bytes 4) xs))) \<and>
   send_data_packet_v6 clk cur_lat cur_lon heading phase elapsed DEP DST DEP_APT DST_APT
     \<noteq> Inl RuntimeError \<and>
   send_data_packet_v7 now start_time cur_lat cur_lon heading phase elapsed DEP DST DEP_APT DST_APT
     \<noteq> Inl RuntimeError"
proof -
  have 6: "length pkt = 177 \<and>
          (\<exists>xs. all_42_integers_v6 clk cur_lat cur_lon heading phase elapsed DEP DST DEP_APT DST_APT
                   = Inr xs \<and>
                 pkt = be_bytes 2 MAGIC_ID @ be_bytes 2 DATA_PACKET_TYPE
                       @ concat (map (be_bytes 4) xs) @ map of_char ''RC901'')"
    if "send_data_packet_v6 clk cur_lat cur_lon heading phase elapsed DEP DST DEP_APT DST_APT = Inr pkt"
    for pkt
    using send_v6_size [OF that] send_v6_bytes [OF that] by simp
  have 7: "length pkt = 172 \<and>
          (\<exists>xs. all_42_integers_v7 now start_time cur_lat cur_lon heading phase elapsed DEP DST
                   DEP_APT DST_APT = Inr xs \<and>
                 pkt = be_bytes 2 MAGIC_ID @ be_bytes 2 DATA_PACKET_TYPE
                       @ concat (map (be_bytes 4) xs))"
    if "send_data_packet_v7 now start_time cur_lat cur_lon heading phase elapsed DEP DST
            DEP_APT DST_APT = Inr pkt"
    for pkt
    using send_v7_size [OF that] send_v7_bytes [OF that] by simp
  from 6 7 show ?thesis
    by (simp only: expected_v6 expected_v7 send_v6_no_runtime_error send_v7_no_runtime_error
        not_False_eq_True simp_thms) blast
qed

theorem packet_size_witness:
  "map_sum id length (send_data_packet_v6 CLOCK6 41.5 (- 80.75) 278 4 300 ''JFK'' ''ORD'' JFK ORD)
     = Inr 177 \<and>
   map_sum id length (send_data_packet_v7 NOW START 41.5 (- 80.75) 278 4 300 ''JFK'' ''ORD'' JFK ORD)
     = Inr 172"
proof -
  obtain p6
    where p6: "send_data_packet_v6 CLOCK6 41.5 (- 80.75) 278 4 300 ''JFK'' ''ORD'' JFK ORD = Inr p6"
    using send_data_packet_v6_total [OF clock6_ok jfk_ord_ok] by blast
  obtain p7
    where p7: "send_data_packet_v7 NOW START 41.5 (- 80.75) 278 4 300 ''JFK'' ''ORD'' JFK ORD = Inr p7"
    using send_data_packet_v7_total [OF now_ok jfk_ord_ok] by blast
  from packet_size [of CLOCK6 "41.5" "- 80.75" 278 4 300 "''JFK''" "''ORD''" JFK ORD NOW START] p6 p7
  show ?thesis by simp
qed

text \<open>A city id beyond 32 bits: revision 6 sends nothing.\<close>

lemma send_v6_needs_city_id:
  assumes "send_data_packet_v6 clk cur_lat cur_lon heading phase elapsed DEP DST DEP_APT DST_APT
             = Inr pkt"
  shows "int32 (geoID DST_APT)"
proof -
  from assms obtain xs
    where xs: "all_42_integers_v6 clk cur_lat cur_lon heading phase elapsed DEP DST DEP_APT DST_APT
                 = Inr xs"
      and p: "struct_pack DATA_FULL_FORMAT_v6
                ([PyInt MAGIC_ID, PyInt DATA_PACKET_TYPE] @ map PyInt xs
                 @ [PyBytes (map of_char ''RC901'')]) = Inr pkt"
    by (auto simp add: send_data_packet_v6_def Let_def split: sum.splits if_splits)
  from all_42_v6_fields [OF xs] have l: "length xs = 42" and g: "xs ! 30 = geoID DST_APT"
    by simp_all
  let ?cs = "[FH, FH] @ replicate 42 Fi @ [Fs 5]"
  let ?as = "[PyInt MAGIC_ID, PyInt DATA_PACKET_TYPE] @ map PyInt xs
             @ [PyBytes (map of_char ''RC901'')]"
  from p have "pack_fields ?cs ?as = Inr pkt" by (simp add: struct_pack_def parse_v6)
  then have "list_all2 fits ?cs ?as" by (rule pack_fields_fits)
  then have "fits (?cs ! 32) (?as ! 32)" by (rule list_all2_nthD) simp
  moreover have "?cs ! 32 = Fi" by (simp add: nth_append)
  moreover have "?as ! 32 = PyInt (xs ! 30)" using l by (simp add: nth_append)
  ultimately show ?thesis using g by simp
qed

text \<open>
  Revision 7 sends 172 bytes, not 177; a city id beyond 32 bits makes revision 6 raise
  instead of sending; and the same arguments one second later give other bytes.
\<close>

theorem packet_size_counterexample:
  "map_sum id length (send_data_packet_v7 NOW START 41.5 (- 80.75) 278 4 300 ''JFK'' ''ORD'' JFK ORD)
     = Inr 172 \<and> (172 :: nat) \<noteq> 177 \<and>
   isl (send_data_packet_v6 CLOCK6 41.5 (- 80.75) 278 4 300 ''JFK'' ''ORD'' JFK
          (ORD\<lparr>geoID := 2 ^ 31\<rparr>)) \<and>
   send_data_packet_v7 NOW START 41.5 (- 80.75) 278 4 300 ''JFK'' ''ORD'' JFK ORD
     \<noteq> send_data_packet_v7 NOW2 START 41.5 (- 80.75) 278 4 300 ''JFK'' ''ORD'' JFK ORD"
proof -
  obtain pkt
    where pkt: "send_data_packet_v7 NOW START 41.5 (- 80.75) 278 4 300 ''JFK'' ''ORD'' JFK ORD = Inr pkt"
    using send_data_packet_v7_total [OF now_ok jfk_ord_ok] by blast
  obtain pkt'
    where pkt': "send_data_packet_v7 NOW2 START 41.5 (- 80.75) 278 4 300 ''JFK'' ''ORD'' JFK ORD
                   = Inr pkt'"
    using send_data_packet_v7_total [OF now2_ok jfk_ord_ok] by blast
  from send_v7_bytes [OF pkt] obtain xs
    where xs: "all_42_integers_v7 NOW START 41.5 (- 80.75) 278 4 300 ''JFK'' ''ORD'' JFK ORD = Inr xs"
      and b: "pkt = (be_bytes 2 MAGIC_ID @ be_bytes 2 DATA_PACKET_TYPE) @ concat (map (be_bytes 4) xs)"
    by auto
  from send_v7_bytes [OF pkt'] obtain xs'
    where xs': "all_42_integers_v7 NOW2 START 41.5 (- 80.75) 278 4 300 ''JFK'' ''ORD'' JFK ORD = Inr xs'"
      and b': "pkt' = (be_bytes 2 MAGIC_ID @ be_bytes 2 DATA_PACKET_TYPE) @ concat (map (be_bytes 4) xs')"
    by auto
  have l: "length xs = 42" "length xs' = 42"
    using all_42_v7_length [OF xs] all_42_v7_length [OF xs'] by simp_all
  have "xs ! 19 = 38160" using all_42_v7_fields [OF xs] by (simp add: NOW_def)
  moreover have "xs' ! 19 = 38161" using all_42_v7_fields [OF xs'] by (simp add: NOW2_def)
  ultimately have ne: "be_bytes 4 (xs ! 19) \<noteq> be_bytes 4 (xs' ! 19)"
    by (simp add: be_bytes4)
  have "length xs = length xs'" "19 < length xs" using l by simp_all
  from packets_differ [OF b b' this ne] have d: "pkt \<noteq> pkt'" .
  have len: "length pkt = 172" using pkt by (rule send_v7_size)
  have "isl (send_data_packet_v6 CLOCK6 41.5 (- 80.75) 278 4 300 ''JFK'' ''ORD'' JFK
               (ORD\<lparr>geoID := 2 ^ 31\<rparr>))"
  proof (cases "send_data_packet_v6 CLOCK6 41.5 (- 80.75) 278 4 300 ''JFK'' ''ORD'' JFK
                  (ORD\<lparr>geoID := 2 ^ 31\<rparr>)")
    case (Inl e)
    then show ?thesis by simp
  next
    case (Inr p)
    from send_v6_needs_city_id [OF this] show ?thesis by (simp add: int32_def)
  qed
  with d len pkt pkt' show ?thesis by simp
qed


section \<open>Runs of the loop\<close>

text \<open>The phases a run transmits are an initial segment of \<^const>\<open>phase_run\<close>: the run
  stops early only when an iteration raises.\<close>

lemma run_v6_prefix:
  "\<exists>n. map (out_phase \<circ> fst) (run_v6 DEP DST D A cp ts) = take n (phase_run cp (map fst ts))"
proof (induction ts arbitrary: cp)
  case Nil
  show ?case by simp
next
  case (Cons t ts)
  obtain e clk where t: "t = (e, clk)" by (cases t)
  show ?case
  proof (cases "tick_v6 D A cp e")
    case (Inl err)
    then have "map (out_phase \<circ> fst) (run_v6 DEP DST D A cp (t # ts))
               = take 0 (phase_run cp (map fst (t # ts)))"
      by (simp add: t)
    then show ?thesis by blast
  next
    case (Inr r)
    obtain cp' out where r: "r = (cp', out)" by (cases r)
    from Inr r tick_v6_phase have p: "cp' = phase_rule e cp" "out_phase out = phase_rule e cp"
      by blast+
    show ?thesis
    proof (cases "send_data_packet_v6 clk (out_lat out) (out_lon out) (out_heading out)
                    (out_phase out) (out_elapsed out) DEP DST D A")
      case (Inl err)
      with Inr r have "map (out_phase \<circ> fst) (run_v6 DEP DST D A cp (t # ts))
                       = take 0 (phase_run cp (map fst (t # ts)))"
        by (simp add: t)
      then show ?thesis by blast
    next
      case sent: (Inr packet)
      from Cons.IH obtain n
        where "map (out_phase \<circ> fst) (run_v6 DEP DST D A cp' ts) = take n (phase_run cp' (map fst ts))"
        by blast
      with Inr r p sent
      have "map (out_phase \<circ> fst) (run_v6 DEP DST D A cp (t # ts))
            = take (Suc n) (phase_run cp (map fst (t # ts)))"
        by (simp add: t)
      then show ?thesis by blast
    qed
  qed
qed

lemma run_v7_prefix:
  "\<exists>n. map (out_phase \<circ> fst) (run_v7 start DEP DST D A st ts)
        = take n (phase_run (current_phase st) (map fst ts))"
proof (induction ts arbitrary: st)
  case Nil
  show ?case by simp
next
  case (Cons t ts)
  obtain e now where t: "t = (e, now)" by (cases t)
  show ?case
  proof (cases "tick_v7 D A st e")
    case (Inl err)
    then have "map (out_phase \<circ> fst) (run_v7 start DEP DST D A st (t # ts))
               = take 0 (phase_run (current_phase st) (map fst (t # ts)))"
      by (simp add: t)
    then show ?thesis by blast
  next
    case (Inr r)
    obtain st' out where r: "r = (st', out)" by (cases r)
    from Inr r tick_v7_phase
    have p: "current_phase st' = phase_rule e (current_phase st)"
      "out_phase out = phase_rule e (current_phase st)"
      by blast+
    show ?thesis
    proof (cases "send_data_packet_v7 now start (out_lat out) (out_lon out) (out_heading out)
                    (out_phase out) (out_elapsed out) DEP DST D A")
      case (Inl err)
      with Inr r have "map (out_phase \<circ> fst) (run_v7 start DEP DST D A st (t # ts))
                       = take 0 (phase_run (current_phase st) (map fst (t # ts)))"
        by (simp add: t)
      then show ?thesis by blast
    next
      case sent: (Inr packet)
      from Cons.IH obtain n
        where "map (out_phase \<circ> fst) (run_v7 start DEP DST D A st' ts)
               = take n (phase_run (current_phase st') (map fst ts))"
        by blast
      with Inr r p sent
      have "map (out_phase \<circ> fst) (run_v7 start DEP DST D A st (t # ts))
            = take (Suc n) (phase_run (current_phase st) (map fst (t # ts)))"
        by (simp add: t)
      then show ?thesis by blast
    qed
  qed
qed

subsection \<open>The flight along the equator, sent\<close>

lemma equator_ok:
  "telemetry_ok 0 0 90 1 0 ''EQA'' ''EQB'' EQ0 EQ90"
  "telemetry_ok 0 45 90 4 300 ''EQA'' ''EQB'' EQ0 EQ90"
  "telemetry_ok 0 90 0 8 650 ''EQA'' ''EQB'' EQ0 EQ90"
  by (simp_all add: telemetry_ok_def airport_ok_def EQ0_def EQ90_def is_ascii_def int32_def)

lemma run_v6_equator:
  "map fst (run_v6 ''EQA'' ''EQB'' EQ0 EQ90 init_v6 [(0, CLOCK6), (300, CLOCK6), (650, CLOCK6)]) =
     [\<lparr>out_lat = 0, out_lon = 0, out_heading = 90, out_phase = 1, out_elapsed = 0\<rparr>,
      \<lparr>out_lat = 0, out_lon = 45, out_heading = 90, out_phase = 4, out_elapsed = 300\<rparr>,
      \<lparr>out_lat = 0, out_lon = 90, out_heading = 0, out_phase = 8, out_elapsed = 650\<rparr>]"
proof -
  obtain p1 where p1: "send_data_packet_v6 CLOCK6 0 0 90 1 0 ''EQA'' ''EQB'' EQ0 EQ90 = Inr p1"
    using send_data_packet_v6_total [OF clock6_ok equator_ok(1)] by blast
  obtain p2 where p2: "send_data_packet_v6 CLOCK6 0 45 90 4 300 ''EQA'' ''EQB'' EQ0 EQ90 = Inr p2"
    using send_data_packet_v6_total [OF clock6_ok equator_ok(2)] by blast
  obtain p3 where p3: "send_data_packet_v6 CLOCK6 0 90 0 8 650 ''EQA'' ''EQB'' EQ0 EQ90 = Inr p3"
    using send_data_packet_v6_total [OF clock6_ok equator_ok(3)] by blast
  show ?thesis
    by (simp add: init_v6_def tick_v6_0 tick_v6_300 tick_v6_650 p1 p2 p3)
qed

lemma run_v7_equator:
  "map fst (run_v7 START ''EQA'' ''EQB'' EQ0 EQ90 init_v7 [(0, NOW), (300, NOW), (650, NOW)]) =
     [\<lparr>out_lat = 0, out_lon = 0, out_heading = 90, out_phase = 1, out_elapsed = 0\<rparr>,
      \<lparr>out_lat = 0, out_lon = 45, out_heading = 90, out_phase = 4, out_elapsed = 300\<rparr>,
      \<lparr>out_lat = 0, out_lon = 90, out_heading = 0, out_phase = 8, out_elapsed = 650\<rparr>]"
proof -
  obtain p1 where p1: "send_data_packet_v7 NOW START 0 0 90 1 0 ''EQA'' ''EQB'' EQ0 EQ90 = Inr p1"
    using send_data_packet_v7_total [OF now_ok equator_ok(1)] by blast
  obtain p2 where p2: "send_data_packet_v7 NOW START 0 45 90 4 300 ''EQA'' ''EQB'' EQ0 EQ90 = Inr p2"
    using send_data_packet_v7_total [OF now_ok equator_ok(2)] by blast
  obtain p3 where p3: "send_data_packet_v7 NOW START 0 90 0 8 650 ''EQA'' ''EQB'' EQ0 EQ90 = Inr p3"
    using send_data_packet_v7_total [OF now_ok equator_ok(3)] by blast
  show ?thesis
    by (simp add: init_v7_def tick_v7_0 tick_v7_300 tick_v7_650 p1 p2 p3)
qed

subsection \<open>Properties of the sequence of phases\<close>

text \<open>
  C4. For every non-decreasing sequence of elapsed times fed through the loop from its
  initial state, the phases of the packets sent are non-decreasing, in revision 6 and in
  revision 7.
\<close>

theorem phase_non_decreasing:
  "sorted (map fst ticks6) \<Longrightarrow> sorted (map fst ticks7) \<Longrightarrow>
     sorted (map (out_phase \<circ> fst) (run_v6 DEP DST DEP_APT DST_APT init_v6 ticks6)) \<and>
     sorted (map (out_phase \<circ> fst) (run_v7 start_time DEP DST DEP_APT DST_APT init_v7 ticks7))"
proof -
  assume s6: "sorted (map fst ticks6)" and s7: "sorted (map fst ticks7)"
  have a6: "sorted (phase_run 1 (map fst ticks6))" using s6 by (rule phase_run_init_sorted)
  have a7: "sorted (phase_run 1 (map fst ticks7))" using s7 by (rule phase_run_init_sorted)
  obtain n where "map (out_phase \<circ> fst) (run_v6 DEP DST DEP_APT DST_APT init_v6 ticks6)
                  = take n (phase_run init_v6 (map fst ticks6))"
    using run_v6_prefix by blast
  with a6 have 1: "sorted (map (out_phase \<circ> fst) (run_v6 DEP DST DEP_APT DST_APT init_v6 ticks6))"
    by (simp add: init_v6_def sorted_wrt_take)
  obtain m where "map (out_phase \<circ> fst) (run_v7 start_time DEP DST DEP_APT DST_APT init_v7 ticks7)
                  = take m (phase_run (current_phase init_v7) (map fst ticks7))"
    using run_v7_prefix by blast
  with a7
  have 2: "sorted (map (out_phase \<circ> fst) (run_v7 start_time DEP DST DEP_APT DST_APT init_v7 ticks7))"
    by (simp add: init_v7_def sorted_wrt_take)
  from 1 2 show ?thesis by simp
qed

theorem phase_non_decreasing_witness:
  "sorted (map fst [(0 :: real, CLOCK6), (300, CLOCK6), (650, CLOCK6)]) \<and>
   sorted (map fst [(0 :: real, NOW), (300, NOW), (650, NOW)]) \<and>
   map (out_phase \<circ> fst)
     (run_v6 ''EQA'' ''EQB'' EQ0 EQ90 init_v6 [(0, CLOCK6), (300, CLOCK6), (650, CLOCK6)])
     = [1, 4, 8] \<and>
   map (out_phase \<circ> fst)
     (run_v7 START ''EQA'' ''EQB'' EQ0 EQ90 init_v7 [(0, NOW), (300, NOW), (650, NOW)])
     = [1, 4, 8]"
proof -
  have "map (out_phase \<circ> fst)
          (run_v6 ''EQA'' ''EQB'' EQ0 EQ90 init_v6 [(0, CLOCK6), (300, CLOCK6), (650, CLOCK6)])
        = map out_phase (map fst
            (run_v6 ''EQA'' ''EQB'' EQ0 EQ90 init_v6 [(0, CLOCK6), (300, CLOCK6), (650, CLOCK6)]))"
    by simp
  then have 6: "map (out_phase \<circ> fst)
          (run_v6 ''EQA'' ''EQB'' EQ0 EQ90 init_v6 [(0, CLOCK6), (300, CLOCK6), (650, CLOCK6)])
        = [1, 4, 8]"
    by (simp only: run_v6_equator) simp
  have "map (out_phase \<circ> fst)
          (run_v7 START ''EQA'' ''EQB'' EQ0 EQ90 init_v7 [(0, NOW), (300, NOW), (650, NOW)])
        = map out_phase (map fst
            (run_v7 START ''EQA'' ''EQB'' EQ0 EQ90 init_v7 [(0, NOW), (300, NOW), (650, NOW)]))"
    by simp
  then have 7: "map (out_phase \<circ> fst)
          (run_v7 START ''EQA'' ''EQB'' EQ0 EQ90 init_v7 [(0, NOW), (300, NOW), (650, NOW)])
        = [1, 4, 8]"
    by (simp only: run_v7_equator) simp
  have s: "sorted (map fst [(0 :: real, CLOCK6), (300, CLOCK6), (650, CLOCK6)])"
    "sorted (map fst [(0 :: real, NOW), (300, NOW), (650, NOW)])"
    by simp_all
  from phase_non_decreasing [OF s, of "''EQA''" "''EQB''" EQ0 EQ90 START] 6 7 s
  show ?thesis by simp
qed

text \<open>
  C9. Phase 7 is never transmitted: whatever elapsed times the loop sees from its initial
  state, no packet of revision 6 or of revision 7 is sent with phase 7.
\<close>

theorem landing_phase_never_transmitted:
  "7 \<notin> set (map (out_phase \<circ> fst) (run_v6 DEP DST DEP_APT DST_APT init_v6 ticks6)) \<and>
   7 \<notin> set (map (out_phase \<circ> fst) (run_v7 start_time DEP DST DEP_APT DST_APT init_v7 ticks7))"
proof -
  have a6: "7 \<notin> set (phase_run 1 (map fst ticks6))" by (rule phase_run_not_7) simp
  have a7: "7 \<notin> set (phase_run 1 (map fst ticks7))" by (rule phase_run_not_7) simp
  obtain n where "map (out_phase \<circ> fst) (run_v6 DEP DST DEP_APT DST_APT init_v6 ticks6)
                  = take n (phase_run init_v6 (map fst ticks6))"
    using run_v6_prefix by blast
  with a6 have 1: "7 \<notin> set (map (out_phase \<circ> fst) (run_v6 DEP DST DEP_APT DST_APT init_v6 ticks6))"
    by (metis init_v6_def in_set_takeD)
  obtain m where "map (out_phase \<circ> fst) (run_v7 start_time DEP DST DEP_APT DST_APT init_v7 ticks7)
                  = take m (phase_run (current_phase init_v7) (map fst ticks7))"
    using run_v7_prefix by blast
  moreover have "current_phase init_v7 = 1" by (simp add: init_v7_def)
  ultimately
  have 2: "7 \<notin> set (map (out_phase \<circ> fst)
                     (run_v7 start_time DEP DST DEP_APT DST_APT init_v7 ticks7))"
    using a7 by (metis in_set_takeD)
  from 1 2 show ?thesis by simp
qed

section \<open>Single fields of the packet\<close>

text \<open>
  C10. The wind component does not depend on the heading: it is 38 for every integer
  heading, and 38 is what both revisions put into field 15.
\<close>

theorem tailwind_independent_of_heading:
  "tailwind heading = 38 \<and>
   (all_42_integers_v6 clk cur_lat cur_lon heading phase elapsed DEP DST DEP_APT DST_APT = Inr xs
      \<longrightarrow> xs ! 15 = 38) \<and>
   (all_42_integers_v7 now start_time cur_lat cur_lon heading phase elapsed DEP DST DEP_APT DST_APT
      = Inr ys \<longrightarrow> ys ! 15 = 38)"
  using all_42_v6_fields all_42_v7_fields tailwind_constant by metis

theorem tailwind_independent_of_heading_witness:
  "map_sum id (\<lambda>xs. xs ! 15)
     (all_42_integers_v6 CLOCK6 41.5 (- 80.75) 278 4 300 ''JFK'' ''ORD'' JFK ORD) = Inr 38 \<and>
   map_sum id (\<lambda>xs. xs ! 15)
     (all_42_integers_v7 NOW START 41.5 (- 80.75) 278 4 300 ''JFK'' ''ORD'' JFK ORD) = Inr 38"
proof -
  obtain xs where xs: "all_42_integers_v6 CLOCK6 41.5 (- 80.75) 278 4 300 ''JFK'' ''ORD'' JFK ORD = Inr xs"
    using all_42_integers_v6_total [OF clock6_ok jfk_ord_ok] by blast
  obtain ys where ys: "all_42_integers_v7 NOW START 41.5 (- 80.75) 278 4 300 ''JFK'' ''ORD'' JFK ORD = Inr ys"
    using all_42_integers_v7_total [OF now_ok jfk_ord_ok] by blast
  from tailwind_independent_of_heading [of 278 CLOCK6 "41.5" "- 80.75" 4 300 "''JFK''" "''ORD''" JFK ORD xs
      NOW START ys] xs ys
  show ?thesis by simp
qed

text \<open>
  Revision 7 at a start of 10:31: the field is 647, where the departure minute of the day
  plus the ten minutes of flight is 641. The code multiplies the minute of the start time
  by 1.2, against its own name \<^verbatim>\<open>current_minutes_today\<close> and its comment
  \<^verbatim>\<open>Calculate ETA in Minutes\<close>.
\<close>

lemma eta_v7_start:
  "py_int (estimated_arrival_time_v7 START) = 647 \<and> spec_estimated_arrival_time START = 641"
  by (simp add: estimated_arrival_time_v7_def START_def TOTAL_FLIGHT_SECONDS_def py_fmod_def
      py_int_def Let_def floor_eq_iff spec_estimated_arrival_time_def)

lemma eta_v6_clock6: "estimated_arrival_time_v6 CLOCK6 300 = 1793702460"
  by (simp add: estimated_arrival_time_v6_def CLOCK6_def TOTAL_FLIGHT_SECONDS_def py_int_def Let_def
      floor_eq_iff)

text \<open>On the full hour the factor has no effect.\<close>

lemma eta_v7_full_hour:
  assumes "dt_minute start_time = 0"
  shows "py_int (estimated_arrival_time_v7 start_time) = spec_estimated_arrival_time start_time"
proof -
  let ?n = "dt_hour start_time * 60 + 10"
  have "estimated_arrival_time_v7 start_time = py_fmod (of_int ?n) 1440"
    using assms by (simp add: estimated_arrival_time_v7_def TOTAL_FLIGHT_SECONDS_def Let_def)
  also have "\<dots> = of_int (?n mod 1440)"
  proof -
    have "\<lfloor>(of_int ?n :: real) / 1440\<rfloor> = ?n div 1440"
      using floor_divide_of_int_eq [of ?n 1440, where ?'a = real] by simp
    then have "py_fmod (of_int ?n) 1440 = of_int ?n - 1440 * of_int (?n div 1440)"
      by (simp only: py_fmod_def)
    also have "\<dots> = of_int (?n - 1440 * (?n div 1440))" by simp
    also have "?n - 1440 * (?n div 1440) = ?n mod 1440" by (simp add: minus_mult_div_eq_mod)
    finally show ?thesis .
  qed
  finally have "py_int (estimated_arrival_time_v7 start_time) = ?n mod 1440"
    by (simp add: py_int_def)
  then show ?thesis
    using assms by (simp add: spec_estimated_arrival_time_def TOTAL_FLIGHT_SECONDS_def)
qed

text \<open>
  C5. Field 16 of revision 7 is a minute of the day, an integer from 0 to 1439, and for a
  start on the full hour it is the departure minute of the day plus the flight duration in
  minutes, modulo 1440. Field 16 of revision 6 is not a minute of the day: it is the epoch
  second of the call plus the whole seconds of flight remaining.
\<close>

theorem estimated_arrival_time_field:
  "(all_42_integers_v7 now start_time cur_lat cur_lon heading phase elapsed DEP DST DEP_APT DST_APT
      = Inr xs \<longrightarrow>
      0 \<le> xs ! 16 \<and> xs ! 16 < 1440 \<and>
      (dt_minute start_time = 0 \<longrightarrow> xs ! 16 = spec_estimated_arrival_time start_time)) \<and>
   (all_42_integers_v6 clk cur_lat cur_lon heading phase elapsed DEP DST DEP_APT DST_APT = Inr ys
      \<longrightarrow> ys ! 16 = py_int (time_first clk) + py_int (max (600 - elapsed) 0))"
proof -
  let ?e = "estimated_arrival_time_v7 start_time"
  have "0 \<le> ?e \<and> ?e < 1440"
    unfolding estimated_arrival_time_v7_def Let_def by (rule py_fmod_range) simp
  then have r: "0 \<le> py_int ?e \<and> py_int ?e < 1440"
    by (simp add: py_int_def floor_less_iff)
  have 6: "estimated_arrival_time_v6 clk elapsed
           = py_int (time_first clk) + py_int (max (600 - elapsed) 0)"
    by (simp add: estimated_arrival_time_v6_def TOTAL_FLIGHT_SECONDS_def Let_def)
  have 7: "0 \<le> xs ! 16 \<and> xs ! 16 < 1440 \<and>
           (dt_minute start_time = 0 \<longrightarrow> xs ! 16 = spec_estimated_arrival_time start_time)"
    if "all_42_integers_v7 now start_time cur_lat cur_lon heading phase elapsed DEP DST DEP_APT DST_APT
          = Inr xs"
  proof -
    from all_42_v7_fields [OF that] have "xs ! 16 = py_int ?e" by simp
    with r eta_v7_full_hour [of start_time] show ?thesis by simp
  qed
  have 8: "ys ! 16 = py_int (time_first clk) + py_int (max (600 - elapsed) 0)"
    if "all_42_integers_v6 clk cur_lat cur_lon heading phase elapsed DEP DST DEP_APT DST_APT = Inr ys"
    using all_42_v6_fields [OF that] 6 by simp
  from 7 8 show ?thesis by blast
qed

theorem estimated_arrival_time_field_witness:
  "dt_minute START0 = 0 \<and>
   map_sum id (\<lambda>xs. xs ! 16)
     (all_42_integers_v7 NOW START0 41.5 (- 80.75) 278 4 300 ''JFK'' ''ORD'' JFK ORD) = Inr 610 \<and>
   map_sum id (\<lambda>xs. xs ! 16)
     (all_42_integers_v6 CLOCK6 41.5 (- 80.75) 278 4 300 ''JFK'' ''ORD'' JFK ORD) = Inr 1793702460"
proof -
  obtain xs where xs: "all_42_integers_v7 NOW START0 41.5 (- 80.75) 278 4 300 ''JFK'' ''ORD'' JFK ORD = Inr xs"
    using all_42_integers_v7_total [OF now_ok jfk_ord_ok] by blast
  obtain ys where ys: "all_42_integers_v6 CLOCK6 41.5 (- 80.75) 278 4 300 ''JFK'' ''ORD'' JFK ORD = Inr ys"
    using all_42_integers_v6_total [OF clock6_ok jfk_ord_ok] by blast
  have m: "dt_minute START0 = 0" by (simp add: START0_def)
  from estimated_arrival_time_field [of NOW START0 "41.5" "- 80.75" 278 4 300 "''JFK''" "''ORD''" JFK ORD
      xs CLOCK6 ys] xs ys m
  have "xs ! 16 = spec_estimated_arrival_time START0"
    "ys ! 16 = py_int (time_first CLOCK6) + py_int (max (600 - 300) 0)"
    by simp_all
  moreover have "spec_estimated_arrival_time START0 = 610"
    by (simp add: spec_estimated_arrival_time_def START0_def TOTAL_FLIGHT_SECONDS_def)
  moreover have "py_int (time_first CLOCK6) + py_int (max (600 - 300) 0) = 1793702460"
    by (simp add: CLOCK6_def py_int_def floor_eq_iff)
  ultimately show ?thesis using xs ys m by simp
qed

text \<open>Revision 6 in the middle of the flight: the field is an epoch second.\<close>

theorem estimated_arrival_time_counterexample:
  "map_sum id (\<lambda>xs. xs ! 16)
     (all_42_integers_v6 CLOCK6 41.5 (- 80.75) 278 4 300 ''JFK'' ''ORD'' JFK ORD) = Inr 1793702460 \<and>
   \<not> (1793702460 :: int) < 1440"
proof -
  obtain ys where ys: "all_42_integers_v6 CLOCK6 41.5 (- 80.75) 278 4 300 ''JFK'' ''ORD'' JFK ORD = Inr ys"
    using all_42_integers_v6_total [OF clock6_ok jfk_ord_ok] by blast
  from all_42_v6_fields [OF ys] have "ys ! 16 = 1793702460" by (simp add: eta_v6_clock6)
  with ys show ?thesis by simp
qed


section \<open>Great-circle interpolation, in exact arithmetic\<close>

subsection \<open>Coordinates and unit vectors\<close>

lemma unit_vector_norm:
  "cos a * cos b * (cos a * cos b) + cos a * sin b * (cos a * sin b) + sin a * sin a = (1::real)"
proof -
  have b: "cos b * cos b + sin b * sin b = 1"
    using sin_cos_squared_add2 [of b] by (simp only: power2_eq_square)
  have a: "cos a * cos a + sin a * sin a = 1"
    using sin_cos_squared_add2 [of a] by (simp only: power2_eq_square)
  have "cos a * cos b * (cos a * cos b) + cos a * sin b * (cos a * sin b) + sin a * sin a
        = cos a * cos a * (cos b * cos b + sin b * sin b) + sin a * sin a"
    by algebra
  also have "\<dots> = 1" by (simp only: b a mult_1_right)
  finally show ?thesis .
qed










subsection \<open>The endpoints\<close>











subsection \<open>Identical endpoints\<close>

text \<open>
  In exact arithmetic the dot product of a unit vector with itself is 1, the central angle
  is 0 and the guard returns the first point for every fraction. The double-precision code
  does not always take the guard: for latitude 40.6413 and longitude -73.7781 the rounded
  dot product is \<^verbatim>\<open>0.9999999999999998\<close>, \<^verbatim>\<open>omega\<close> is
  \<^verbatim>\<open>2.1073424255447017e-08\<close>, and the code goes through the division by
  \<^verbatim>\<open>sin(omega)\<close> and returns latitude \<^verbatim>\<open>40.64130000000001\<close>.
\<close>

lemma interpolate_identical_exact:
  "interpolate_great_circle lat1 lon1 lat1 lon1 fraction = Inr (lat1, lon1)"
  unfolding interpolate_great_circle_def Let_def unit_vector_norm
  by (simp add: math_acos_def)

end
